theory Spec2Isabelle
  imports Main "HOL-Library.AList" "HOL-Library.Word"
begin

section \<open>Values, definitions and errors\<close>

text \<open>
  Go's \<open>interface{}\<close>: the dynamic values that occur in the code under study
  (configuration values, pooled connections).
\<close>

datatype any = AnyNil | AnyString string | AnyInt int | AnyBool bool | AnyConn nat

text \<open>
  Every error value the code returns, and the run-time panic of a failed type assertion
  or of a call through a nil function value.
\<close>

datatype error =
    ErrNotImplemented
  | ErrNetPoolNil
  | ErrClientNotInit
  | ErrNotFound string
  | ErrOther string
  | UnsupportedOperation
  | Panic string

text \<open>\<open>types.RuleNode\<close>: the fields the code reads.\<close>

record RuleNode =
  RuleNode_Id :: string
  RuleNode_Type :: string
  RuleNode_Configuration :: "(string \<times> any) list"

text \<open>
  A component instance. \<open>types.NetResource\<close> is the narrower interface with the
  method \<open>GetNetResource\<close>; the type query \<open>node.(types.NetResource)\<close> succeeds
  exactly on \<open>NetResource\<close>, which carries what that method returns.
\<close>

datatype Node = PlainNode | NetResource "error + any"

fun is_NetResource :: "Node \<Rightarrow> bool" where
  "is_NetResource PlainNode = False"
| "is_NetResource (NetResource _) = True"

text \<open>\<open>RuleNodeCtx\<close>, embedded in \<open>NetResourceCtx\<close>: the instance and its definition.\<close>

record RuleNodeCtx =
  SelfDefinition :: RuleNode
  Node :: Node

text \<open>
  \<open>types.Config\<close>: the decoder \<open>Parser.DecodeRuleNode\<close> and the component factory
  (registry lookup followed by the component's own \<open>Init\<close>) are collaborators of the
  pool and are taken as parameters. \<open>NetPool\<close> is the pointer to the configured pool
  (\<open>None\<close> is nil); \<open>Properties\<close> are the process-wide properties.
\<close>

type_synonym pool_ptr = nat

record Config =
  DecodeRuleNode :: "string \<Rightarrow> error + RuleNode"
  NewNode :: "RuleNode \<Rightarrow> error + Node"
  NetPool :: "pool_ptr option"
  Properties :: "(string \<times> string) list option"

section \<open>The world: allocated contexts and observable effects\<close>

text \<open>
  A pooled context is a pointer \<open>*NetResourceCtx\<close>. The heap lists every context ever
  allocated; a reference is an index into it, so two references are identity-equal
  exactly when they are the same number. The trace records the calls whose occurrence
  the properties below speak about: decoding, instantiation, \<open>Destroy\<close> of a context, and
  the \<open>Destroy\<close> of a component instance that a reload replaces.
\<close>

type_synonym ref = nat

datatype event = EvDecode string | EvInit RuleNode | EvDestroy ref | EvDestroyNode Node

record world =
  heap :: "RuleNodeCtx list"
  trace :: "event list"

definition emit :: "event \<Rightarrow> world \<Rightarrow> world" where
  "emit e w = w\<lparr>trace := trace w @ [e]\<rparr>"

text \<open>\<open>NewNetResourceCtx\<close>: allocates the wrapper and returns the pointer.\<close>

definition NewNetResourceCtx :: "RuleNodeCtx \<Rightarrow> world \<Rightarrow> ref \<times> world" where
  "NewNetResourceCtx ctx w = (length (heap w), w\<lparr>heap := heap w @ [ctx]\<rparr>)"

text \<open>
  Modelled from the spec: \<open>InitNetResourceNodeCtx\<close> is not among the sources. The spec's
  \<open>InitNodeContext(definition)\<close> instantiates the component of the declared type, calls
  its initializer, and on success returns a context that owns the instance together with
  the definition; on failure no context is returned.
\<close>

definition InitNetResourceNodeCtx :: "Config \<Rightarrow> RuleNode \<Rightarrow> world \<Rightarrow> (error + RuleNodeCtx) \<times> world" where
  "InitNetResourceNodeCtx cfg def w =
     (case NewNode cfg def of
        Inl e \<Rightarrow> (Inl e, emit (EvInit def) w)
      | Inr node \<Rightarrow> (Inr \<lparr>SelfDefinition = def, Node = node\<rparr>, emit (EvInit def) w))"

text \<open>
  Modelled from the spec: \<open>GetNodeId\<close> is not among the sources; the id of a context is
  the id of its current definition.
\<close>

definition GetNodeId :: "RuleNodeCtx \<Rightarrow> string" where
  "GetNodeId ctx = RuleNode_Id (SelfDefinition ctx)"

text \<open>
  Modelled from the spec: \<open>Destroy\<close> of a context is not among the sources; it calls the
  instance's \<open>Destroy\<close>. The call is recorded in the trace.
\<close>

definition Destroy :: "ref \<Rightarrow> world \<Rightarrow> world" where
  "Destroy r w = emit (EvDestroy r) w"

section \<open>\<open>sync.Map\<close>\<close>

text \<open>
  A \<open>sync.Map\<close> holds one value per key. It is an association list whose keys are
  distinct; the order of the list is the order in which \<open>Range\<close> visits the keys, which
  Go leaves unspecified, so every theorem below holds for every order.
\<close>

definition Load :: "'k \<Rightarrow> ('k \<times> 'v) list \<Rightarrow> 'v option" where
  "Load k m = map_of m k"

definition Store :: "'k \<Rightarrow> 'v \<Rightarrow> ('k \<times> 'v) list \<Rightarrow> ('k \<times> 'v) list" where
  "Store k v m = AList.update k v m"

definition Delete :: "'k \<Rightarrow> ('k \<times> 'v) list \<Rightarrow> ('k \<times> 'v) list" where
  "Delete k m = AList.delete k m"

definition LoadOrStore :: "'k \<Rightarrow> 'v \<Rightarrow> ('k \<times> 'v) list \<Rightarrow> 'v \<times> ('k \<times> 'v) list" where
  "LoadOrStore k v m = (case Load k m of Some v' \<Rightarrow> (v', m) | None \<Rightarrow> (v, Store k v m))"

section \<open>\<open>NodeNetPool\<close>: the sub-pool of one node type\<close>

text \<open>
  The field \<open>NodeType\<close> of the sub-pool is written \<open>PoolNodeType\<close>, since the wrapper
  below has a field \<open>NodeType\<close> of its own. The configuration is the same for the pool and
  all its sub-pools and is passed to the operations that read it.
\<close>

record NodeNetPool =
  PoolNodeType :: string
  entries :: "(string \<times> ref) list"

definition NewNodeNetPool :: "string \<Rightarrow> NodeNetPool" where
  "NewNodeNetPool nodeType = \<lparr>PoolNodeType = nodeType, entries = []\<rparr>"

definition NodeNetPool_NewFromDef ::
  "Config \<Rightarrow> RuleNode \<Rightarrow> NodeNetPool \<Rightarrow> world \<Rightarrow> (error + ref) \<times> NodeNetPool \<times> world" where
  "NodeNetPool_NewFromDef cfg def n w =
     (case Load (RuleNode_Id def) (entries n) of
        Some v \<Rightarrow> (Inr v, n, w)
      | None \<Rightarrow>
          (case InitNetResourceNodeCtx cfg def w of
             (Inr ctx, w1) \<Rightarrow>
               (case NewNetResourceCtx ctx w1 of
                  (rCtx, w2) \<Rightarrow>
                    if \<not> is_NetResource (Node ctx) then (Inl ErrNotImplemented, n, w2)
                    else (Inr rCtx, n\<lparr>entries := Store (GetNodeId ctx) rCtx (entries n)\<rparr>, w2))
           | (Inl err, w1) \<Rightarrow> (Inl err, n, w1)))"

definition NodeNetPool_New ::
  "Config \<Rightarrow> string \<Rightarrow> string \<Rightarrow> NodeNetPool \<Rightarrow> world \<Rightarrow> (error + ref) \<times> NodeNetPool \<times> world" where
  "NodeNetPool_New cfg id' dsl n w =
     (case Load id' (entries n) of
        Some v \<Rightarrow> (Inr v, n, w)
      | None \<Rightarrow>
          (case DecodeRuleNode cfg dsl of
             Inr nodeDef \<Rightarrow>
               NodeNetPool_NewFromDef cfg
                 (if id' \<noteq> [] then nodeDef\<lparr>RuleNode_Id := id'\<rparr> else nodeDef) n
                 (emit (EvDecode dsl) w)
           | Inl err \<Rightarrow> (Inl err, n, emit (EvDecode dsl) w)))"

definition NodeNetPool_Get :: "string \<Rightarrow> NodeNetPool \<Rightarrow> ref option" where
  "NodeNetPool_Get id' n = Load id' (entries n)"

text \<open>
  \<open>NetResourceCtx.GetNetResource\<close>: the type query on the node, then the node's method.
\<close>

definition NetResourceCtx_GetNetResource :: "RuleNodeCtx \<Rightarrow> error + any" where
  "NetResourceCtx_GetNetResource ctx =
     (case Node ctx of NetResource res \<Rightarrow> res | PlainNode \<Rightarrow> Inl ErrNotImplemented)"

definition NodeNetPool_GetNetResource :: "string \<Rightarrow> NodeNetPool \<Rightarrow> world \<Rightarrow> error + any" where
  "NodeNetPool_GetNetResource id' n w =
     (case NodeNetPool_Get id' n of
        Some r \<Rightarrow> NetResourceCtx_GetNetResource (heap w ! r)
      | None \<Rightarrow> Inl (ErrNotFound id'))"

definition NodeNetPool_Del :: "string \<Rightarrow> NodeNetPool \<Rightarrow> world \<Rightarrow> NodeNetPool \<times> world" where
  "NodeNetPool_Del id' n w =
     (case Load id' (entries n) of
        Some v \<Rightarrow> (n\<lparr>entries := Delete id' (entries n)\<rparr>, Destroy v w)
      | None \<Rightarrow> (n, w))"

text \<open>
  \<open>Range\<close> visits every pair present when it starts, once; the callback of \<open>Stop\<close>
  deletes only the key it is visiting.
\<close>

definition NodeNetPool_Stop :: "NodeNetPool \<Rightarrow> world \<Rightarrow> NodeNetPool \<times> world" where
  "NodeNetPool_Stop n w =
     fold (\<lambda>(key, value) (n', w'). NodeNetPool_Del key n' w') (entries n) (n, w)"

definition NodeNetPool_GetAll :: "NodeNetPool \<Rightarrow> ref list" where
  "NodeNetPool_GetAll n = fold (\<lambda>(key, value) items. items @ [value]) (entries n) []"

section \<open>\<open>NetPool\<close>: node type to sub-pool\<close>

text \<open>
  The outer map holds pointers to sub-pools. No sub-pool is reachable from anywhere
  else, so the map holds the sub-pool itself and a call that mutates a sub-pool stores
  the mutated value back under its key.
\<close>

type_synonym NetPool = "(string \<times> NodeNetPool) list"

definition NewNetPool :: NetPool where
  "NewNetPool = []"

definition NetPool_New ::
  "Config \<Rightarrow> string \<Rightarrow> string \<Rightarrow> string \<Rightarrow> NetPool \<Rightarrow> world \<Rightarrow> (error + ref) \<times> NetPool \<times> world" where
  "NetPool_New cfg nodeType id' dsl np w =
     (case LoadOrStore nodeType (NewNodeNetPool nodeType) np of
        (v, np1) \<Rightarrow>
          (case NodeNetPool_New cfg id' dsl v w of
             (res, v', w') \<Rightarrow> (res, Store nodeType v' np1, w')))"

definition NetPool_NewFromDef ::
  "Config \<Rightarrow> RuleNode \<Rightarrow> NetPool \<Rightarrow> world \<Rightarrow> (error + ref) \<times> NetPool \<times> world" where
  "NetPool_NewFromDef cfg def np w =
     (case LoadOrStore (RuleNode_Type def) (NewNodeNetPool (RuleNode_Type def)) np of
        (v, np1) \<Rightarrow>
          (case NodeNetPool_NewFromDef cfg def v w of
             (res, v', w') \<Rightarrow> (res, Store (RuleNode_Type def) v' np1, w')))"

definition NetPool_Get :: "string \<Rightarrow> string \<Rightarrow> NetPool \<Rightarrow> ref option" where
  "NetPool_Get nodeType id' np =
     (case Load nodeType np of Some v \<Rightarrow> NodeNetPool_Get id' v | None \<Rightarrow> None)"

definition NetPool_GetNetResource :: "string \<Rightarrow> string \<Rightarrow> NetPool \<Rightarrow> world \<Rightarrow> error + any" where
  "NetPool_GetNetResource nodeType id' np w =
     (case Load nodeType np of
        Some v \<Rightarrow> NodeNetPool_GetNetResource id' v w
      | None \<Rightarrow> Inl (ErrNotFound id'))"

definition NetPool_Del :: "string \<Rightarrow> string \<Rightarrow> NetPool \<Rightarrow> world \<Rightarrow> NetPool \<times> world" where
  "NetPool_Del nodeType id' np w =
     (case Load nodeType np of
        Some v \<Rightarrow> (case NodeNetPool_Del id' v w of (v', w') \<Rightarrow> (Store nodeType v' np, w'))
      | None \<Rightarrow> (np, w))"

text \<open>
  \<open>NetPool.Stop\<close>: for every sub-pool, stop it and delete its key. The stopped sub-pool
  is no longer reachable from the map.
\<close>

definition NetPool_Stop :: "NetPool \<Rightarrow> world \<Rightarrow> NetPool \<times> world" where
  "NetPool_Stop np w =
     fold (\<lambda>(key, value) (np', w'). (Delete key np', snd (NodeNetPool_Stop value w'))) np (np, w)"

definition NetPool_GetAll :: "NetPool \<Rightarrow> (string \<times> ref list) list" where
  "NetPool_GetAll np =
     fold (\<lambda>(key, value) nodeTypeItems. Store key (NodeNetPool_GetAll value) nodeTypeItems) np []"

text \<open>
  Well-formedness of the maps (the keys of a \<open>sync.Map\<close> are distinct), and the key
  consistency of the pool: every stored reference is allocated, and the context it
  points to has the id it is stored under.
\<close>

definition wf_NodeNetPool :: "NodeNetPool \<Rightarrow> bool" where
  "wf_NodeNetPool n = distinct (map fst (entries n))"

definition wf_NetPool :: "NetPool \<Rightarrow> bool" where
  "wf_NetPool np = (distinct (map fst np) \<and> list_all (\<lambda>(key, value). wf_NodeNetPool value) np)"

definition keys_consistent :: "NodeNetPool \<Rightarrow> world \<Rightarrow> bool" where
  "keys_consistent n w =
     list_all (\<lambda>(key, r). r < length (heap w) \<and> GetNodeId (heap w ! r) = key) (entries n)"

definition pool_keys_consistent :: "NetPool \<Rightarrow> world \<Rightarrow> bool" where
  "pool_keys_consistent np w = list_all (\<lambda>(key, value). keys_consistent value w) np"

text \<open>The references a pool holds, over all node types.\<close>

definition pool_refs :: "NetPool \<Rightarrow> ref list" where
  "pool_refs np = concat (map (\<lambda>(key, value). map snd (entries value)) np)"

section \<open>Sequences of pool operations, and reload in place\<close>

text \<open>
  The operations that create and remove entries, as values, and the state a sequence of them
  leaves: the pools that can be reached from the empty pool are the results of \<open>pool_run\<close>.
\<close>

datatype pool_op =
    OpNew string string string
  | OpNewFromDef RuleNode
  | OpDel string string
  | OpStop

fun pool_step :: "Config \<Rightarrow> pool_op \<Rightarrow> NetPool \<times> world \<Rightarrow> NetPool \<times> world" where
  "pool_step cfg (OpNew nodeType id' dsl) (np, w) = snd (NetPool_New cfg nodeType id' dsl np w)"
| "pool_step cfg (OpNewFromDef def) (np, w) = snd (NetPool_NewFromDef cfg def np w)"
| "pool_step cfg (OpDel nodeType id') (np, w) = NetPool_Del nodeType id' np w"
| "pool_step cfg OpStop (np, w) = NetPool_Stop np w"

definition pool_run :: "Config \<Rightarrow> pool_op list \<Rightarrow> NetPool \<times> world \<Rightarrow> NetPool \<times> world" where
  "pool_run cfg ops st = fold (pool_step cfg) ops st"

text \<open>
  Modelled from the spec: \<open>ReloadSelf\<close> of a context is not among the sources (the engine
  test calls it on a pooled entry). The spec's \<open>ReloadSelf\<close> decodes a new definition,
  instantiates and initializes a new component instance of the declared type, and only on
  success replaces the definition and the instance of the context in place, destroying the
  old instance after the swap; on a decode or build failure the context is left untouched
  and the error is returned. The receiver is an allocated context.
\<close>

definition ReloadSelf :: "Config \<Rightarrow> ref \<Rightarrow> string \<Rightarrow> world \<Rightarrow> error option \<times> world" where
  "ReloadSelf cfg r dsl w =
     (if \<not> r < length (heap w) then (Some (Panic ''nil receiver''), w)
      else
        (case DecodeRuleNode cfg dsl of
           Inl err \<Rightarrow> (Some err, emit (EvDecode dsl) w)
         | Inr def \<Rightarrow>
             (case InitNetResourceNodeCtx cfg def (emit (EvDecode dsl) w) of
                (Inl err, w1) \<Rightarrow> (Some err, w1)
              | (Inr ctx, w1) \<Rightarrow>
                  (None, emit (EvDestroyNode (Node (heap w1 ! r))) (w1\<lparr>heap := (heap w1)[r := ctx]\<rparr>)))))"

section \<open>\<open>nodeUtils\<close>: the pool-reference prefix\<close>

text \<open>\<open>strings.HasPrefix\<close>, and the slice \<open>s[n:]\<close> of a string that is long enough.\<close>

definition HasPrefix :: "string \<Rightarrow> string \<Rightarrow> bool" where
  "HasPrefix s p = (length p \<le> length s \<and> take (length p) s = p)"

text \<open>
  Modelled from the spec: the constant \<open>types.NodeConfigurationPrefixNetResource\<close> is not
  among the sources. The spec describes a reserved \<open>ref://\<close> style prefix, and the test
  of the engine refers to a pooled client as \<open>ref://my_mqtt_client01\<close>.
\<close>

definition NodeConfigurationPrefixNetResource :: string where
  "NodeConfigurationPrefixNetResource = ''ref://''"

definition IsNetPool :: "Config \<Rightarrow> string \<Rightarrow> bool" where
  "IsNetPool config server = HasPrefix server NodeConfigurationPrefixNetResource"

definition GetNetResourceId :: "Config \<Rightarrow> string \<Rightarrow> string" where
  "GetNetResourceId config server =
     (if IsNetPool config server then drop (length NodeConfigurationPrefixNetResource) server
      else [])"

section \<open>\<open>NetResourceNode[T]\<close>: the lazy connection wrapper\<close>

text \<open>
  \<open>InitNetResourceFunc\<close> is a closure \<open>func() (T, error)\<close> that may dial: it is a
  function on the state \<open>'s\<close> of whatever it touches, and \<open>None\<close> is the nil function.
  \<open>Connecting\<close> is an \<open>int32\<close>.
\<close>

record ('c, 's) NetResourceNode =
  RuleConfig :: Config
  NodeType :: string
  NetResourceId :: string
  InitNetResourceFunc :: "('s \<Rightarrow> (error + 'c) \<times> 's) option"
  Connecting :: "32 word"

text \<open>
  \<open>Init\<close> returns the error (\<open>None\<close> is nil), the mutated receiver and the state the
  dial function left. Calling the nil function value panics.
\<close>

definition Init ::
  "('c, 's) NetResourceNode \<Rightarrow> Config \<Rightarrow> string \<Rightarrow> string \<Rightarrow> ('s \<Rightarrow> (error + 'c) \<times> 's) option \<Rightarrow> 's
     \<Rightarrow> error option \<times> ('c, 's) NetResourceNode \<times> 's" where
  "Init x ruleConfig nodeType server initNetResourceFunc s =
     (let x1 = x\<lparr>RuleConfig := ruleConfig, NodeType := nodeType\<rparr>;
          netResourceId = GetNetResourceId ruleConfig server
      in if netResourceId = [] then
           (let x2 = x1\<lparr>InitNetResourceFunc := initNetResourceFunc\<rparr>
            in case InitNetResourceFunc x2 of
                 None \<Rightarrow> (Some (Panic ''nil func''), x2, s)
               | Some f \<Rightarrow>
                   (case f s of
                      (Inl err, s') \<Rightarrow> (Some err, x2, s')
                    | (Inr _, s') \<Rightarrow> (None, x2, s')))
         else (None, x1\<lparr>NetResourceId := netResourceId\<rparr>, s))"

text \<open>
  \<open>GetClient\<close>. The pool pointer of the stored configuration is dereferenced in the
  store \<open>pools\<close> of the moment of the call, and the pool reads the world of that moment.
  The type assertion \<open>p.(T)\<close> is the parameter \<open>asT\<close>; it panics where \<open>asT\<close> is
  \<open>None\<close>.
\<close>

definition GetClient ::
  "(any \<Rightarrow> 'c option) \<Rightarrow> ('c, 's) NetResourceNode \<Rightarrow> (pool_ptr \<Rightarrow> NetPool) \<Rightarrow> world \<Rightarrow> 's
     \<Rightarrow> (error + 'c) \<times> 's" where
  "GetClient asT x pools w s =
     (if NetResourceId x \<noteq> [] then
        (case NetPool (RuleConfig x) of
           None \<Rightarrow> (Inl ErrNetPoolNil, s)
         | Some a \<Rightarrow>
             (case NetPool_GetNetResource (NodeType x) (NetResourceId x) (pools a) w of
                Inr p \<Rightarrow>
                  (case asT p of
                     Some c \<Rightarrow> (Inr c, s)
                   | None \<Rightarrow> (Inl (Panic ''interface conversion''), s))
              | Inl err \<Rightarrow> (Inl err, s)))
      else (case InitNetResourceFunc x of
              Some f \<Rightarrow> f s
            | None \<Rightarrow> (Inl ErrClientNotInit, s)))"

subsection \<open>The connect guard\<close>

text \<open>\<open>atomic.CompareAndSwapInt32(&x.Connecting, 0, 1)\<close>, the load and the store.\<close>

definition Connect :: "('c, 's) NetResourceNode \<Rightarrow> bool \<times> ('c, 's) NetResourceNode" where
  "Connect x = (if Connecting x = 0 then (True, x\<lparr>Connecting := 1\<rparr>) else (False, x))"

definition IsConnecting :: "('c, 's) NetResourceNode \<Rightarrow> bool" where
  "IsConnecting x = (Connecting x = 1)"

definition Connected :: "('c, 's) NetResourceNode \<Rightarrow> ('c, 's) NetResourceNode" where
  "Connected x = x\<lparr>Connecting := 0\<rparr>"

text \<open>A sequence of guard operations on one wrapper, with what each call returned.\<close>

datatype guard_op = OpConnect | OpIsConnecting | OpConnected

datatype guard_result = ResBool bool | ResUnit

fun guard_step :: "guard_op \<Rightarrow> ('c, 's) NetResourceNode \<Rightarrow> guard_result \<times> ('c, 's) NetResourceNode" where
  "guard_step OpConnect x = (case Connect x of (b, x') \<Rightarrow> (ResBool b, x'))"
| "guard_step OpIsConnecting x = (ResBool (IsConnecting x), x)"
| "guard_step OpConnected x = (ResUnit, Connected x)"

fun guard_run :: "guard_op list \<Rightarrow> ('c, 's) NetResourceNode \<Rightarrow> guard_result list \<times> ('c, 's) NetResourceNode" where
  "guard_run [] x = ([], x)"
| "guard_run (op # ops) x =
     (case guard_step op x of (r, x') \<Rightarrow> (case guard_run ops x' of (rs, x'') \<Rightarrow> (r # rs, x'')))"

section \<open>Reloading a child\<close>

text \<open>
  Modelled from the spec: \<open>RuleNodeCtx.ReloadChild\<close> is not among the sources (only a
  test that calls it is). The spec makes \<open>ReloadChild\<close> a capability of composite
  component types that manage nested children; for every other type it surfaces an explicit
  "operation not supported" condition as an error value and mutates nothing. The capability
  is the first argument: \<open>None\<close> for a non-composite type.
\<close>

definition ReloadChild ::
  "(RuleNodeCtx \<Rightarrow> string \<Rightarrow> string \<Rightarrow> error option \<times> RuleNodeCtx) option
     \<Rightarrow> RuleNodeCtx \<Rightarrow> string \<Rightarrow> string \<Rightarrow> error option \<times> RuleNodeCtx" where
  "ReloadChild composite ctx childId dsl =
     (case composite of
        None \<Rightarrow> (Some UnsupportedOperation, ctx)
      | Some reload \<Rightarrow> reload ctx childId dsl)"

section \<open>Variable resolution\<close>

text \<open>
  Modelled from the spec: \<open>RuleChainCtx\<close> is not among the sources; the pipeline scope is
  the pipeline's declared \<open>vars\<close> and \<open>decryptSecrets\<close> maps.
\<close>

record RuleChainCtx =
  vars :: "(string \<times> string) list"
  decryptSecrets :: "(string \<times> string) list"

text \<open>
  Modelled from the spec: the lookup of a placeholder body \<open>scope.name\<close> is not among the
  sources. The scope \<open>global\<close> is looked up in the process-wide properties; the scope
  \<open>vars\<close>, when a pipeline scope is supplied, in the pipeline's declared \<open>vars\<close> merged with
  its \<open>decryptSecrets\<close>; a scope that is absent or unknown, or a name that is not found,
  gives nothing.
\<close>

definition lookup_placeholder ::
  "Config \<Rightarrow> RuleChainCtx option \<Rightarrow> string \<Rightarrow> string option" where
  "lookup_placeholder config chainCtx body =
     (let scope = takeWhile (\<lambda>c. c \<noteq> CHR ''.'') body;
          rest = dropWhile (\<lambda>c. c \<noteq> CHR ''.'') body
      in if rest = [] then None
         else if scope = ''global'' then
           (case Properties config of None \<Rightarrow> None | Some props \<Rightarrow> map_of props (tl rest))
         else if scope = ''vars'' then
           (case chainCtx of
              None \<Rightarrow> None
            | Some c \<Rightarrow> map_of (vars c @ decryptSecrets c) (tl rest))
         else None)"

text \<open>
  Modelled from the spec: the scan of a string value for placeholders \<open>${scope.name}\<close> is
  not among the sources. Outside a placeholder (\<open>None\<close>) characters are copied until
  \<open>${\<close> opens one; inside (\<open>Some body\<close>) the body is collected until \<open>}\<close> closes it.
  A placeholder that the lookup does not resolve is left verbatim, and so is one that is
  never closed.
\<close>

fun scan_placeholders :: "(string \<Rightarrow> string option) \<Rightarrow> string option \<Rightarrow> string \<Rightarrow> string" where
  "scan_placeholders lk None [] = []"
| "scan_placeholders lk None [c] = [c]"
| "scan_placeholders lk None (c # d # cs) =
     (if c = CHR ''$'' \<and> d = CHR ''{'' then scan_placeholders lk (Some []) cs
      else c # scan_placeholders lk None (d # cs))"
| "scan_placeholders lk (Some body) [] = ''${'' @ body"
| "scan_placeholders lk (Some body) (c # cs) =
     (if c = CHR ''}'' then
        (case lk body of Some v \<Rightarrow> v | None \<Rightarrow> ''${'' @ body @ ''}'') @ scan_placeholders lk None cs
      else scan_placeholders lk (Some (body @ [c])) cs)"

text \<open>
  Modelled from the spec: \<open>processVariables\<close> is not among the sources (only a test that
  calls it is). Every string value of the configuration is scanned and resolved against the
  two scopes, every other value is copied unchanged, the keys stay, and no error arises.
\<close>

definition resolve_string :: "Config \<Rightarrow> RuleChainCtx option \<Rightarrow> string \<Rightarrow> string" where
  "resolve_string config chainCtx strV =
     scan_placeholders (lookup_placeholder config chainCtx) None strV"

text \<open>\<open>has_opener s\<close>: the string contains the opener \<open>${\<close> of a placeholder.\<close>

fun has_opener :: "string \<Rightarrow> bool" where
  "has_opener (c # d # cs) = (c = CHR ''$'' \<and> d = CHR ''{'' \<or> has_opener (d # cs))"
| "has_opener cs = False"

definition processVariables ::
  "Config \<Rightarrow> RuleChainCtx option \<Rightarrow> (string \<times> any) list \<Rightarrow> error + (string \<times> any) list" where
  "processVariables config chainCtx configuration =
     Inr (map (\<lambda>(key, value).
                 (key, case value of
                         AnyString strV \<Rightarrow> AnyString (resolve_string config chainCtx strV)
                       | _ \<Rightarrow> value))
              configuration)"

section \<open>Fixtures of the pool test\<close>

text \<open>
  The definitions and the configuration of \<open>TestNetPool\<close>. The decoder is a parameter, so
  the three definition texts are named rather than spelled out: \<open>dsl\<close> is the MQTT client
  definition, \<open>notNetNodeDsl\<close> the filter definition, and \<open>noIdDsl\<close> the MQTT client
  definition without its \<open>id\<close> member, which decodes to the empty id. The registry makes
  \<open>mqttClient\<close> a connection-bearing component and \<open>jsFilter\<close> a plain one.
\<close>

definition test_mqtt_def :: RuleNode where
  "test_mqtt_def = \<lparr>RuleNode_Id = ''my_mqtt_client'', RuleNode_Type = ''mqttClient'',
     RuleNode_Configuration = [(''Server'', AnyString ''127.0.0.1:1883''), (''Topic'', AnyString ''/device/msg'')]\<rparr>"

definition test_jsFilter_def :: RuleNode where
  "test_jsFilter_def = \<lparr>RuleNode_Id = ''my_jsFilter'', RuleNode_Type = ''jsFilter'',
     RuleNode_Configuration = []\<rparr>"

definition test_Config :: Config where
  "test_Config =
     \<lparr>DecodeRuleNode = (\<lambda>dsl. if dsl = ''dsl'' then Inr test_mqtt_def
                              else if dsl = ''notNetNodeDsl'' then Inr test_jsFilter_def
                              else if dsl = ''noIdDsl'' then Inr (test_mqtt_def\<lparr>RuleNode_Id := []\<rparr>)
                              else Inl (ErrOther ''decode error'')),
      NewNode = (\<lambda>d. if RuleNode_Type d = ''mqttClient'' then Inr (NetResource (Inr (AnyConn 1883)))
                       else if RuleNode_Type d = ''jsFilter'' then Inr PlainNode
                       else Inl (ErrOther ''component not found'')),
      NetPool = Some 0,
      Properties = Some []\<rparr>"

definition test_world0 :: world where
  "test_world0 = \<lparr>heap = [], trace = []\<rparr>"

text \<open>The state after \<open>pool.New("mqttClient", "my_mqtt_client01", dsl)\<close> on the empty pool.\<close>

definition test_ctx1 :: RuleNodeCtx where
  "test_ctx1 = \<lparr>SelfDefinition = test_mqtt_def\<lparr>RuleNode_Id := ''my_mqtt_client01''\<rparr>,
                 Node = NetResource (Inr (AnyConn 1883))\<rparr>"

definition test_pool1 :: NetPool where
  "test_pool1 = [(''mqttClient'', \<lparr>PoolNodeType = ''mqttClient'', entries = [(''my_mqtt_client01'', 0)]\<rparr>)]"

definition test_world1 :: world where
  "test_world1 = \<lparr>heap = [test_ctx1],
      trace = [EvDecode ''dsl'', EvInit (test_mqtt_def\<lparr>RuleNode_Id := ''my_mqtt_client01''\<rparr>)]\<rparr>"

definition test_ctx_js :: RuleNodeCtx where
  "test_ctx_js = \<lparr>SelfDefinition = test_jsFilter_def, Node = PlainNode\<rparr>"

definition test_world_js :: world where
  "test_world_js = \<lparr>heap = [test_ctx_js], trace = [EvInit test_jsFilter_def]\<rparr>"

text \<open>
  The state after \<open>pool.New("mqttClient", "", noIdDsl)\<close> on the empty pool: the entry is
  stored under the empty id.
\<close>

definition test_ctx_noid :: RuleNodeCtx where
  "test_ctx_noid = \<lparr>SelfDefinition = test_mqtt_def\<lparr>RuleNode_Id := []\<rparr>,
                     Node = NetResource (Inr (AnyConn 1883))\<rparr>"

definition test_pool_noid :: NetPool where
  "test_pool_noid = [(''mqttClient'', \<lparr>PoolNodeType = ''mqttClient'', entries = [([], 0)]\<rparr>)]"

definition test_world_noid :: world where
  "test_world_noid = \<lparr>heap = [test_ctx_noid],
      trace = [EvDecode ''noIdDsl'', EvInit (test_mqtt_def\<lparr>RuleNode_Id := []\<rparr>)]\<rparr>"

text \<open>
  The state after \<open>pool.New("mqttClient", "", dsl)\<close> on the empty pool: the entry is stored
  under the id of the decoded definition.
\<close>

definition test_ctx_own :: RuleNodeCtx where
  "test_ctx_own = \<lparr>SelfDefinition = test_mqtt_def, Node = NetResource (Inr (AnyConn 1883))\<rparr>"

definition test_pool_own :: NetPool where
  "test_pool_own = [(''mqttClient'', \<lparr>PoolNodeType = ''mqttClient'', entries = [(''my_mqtt_client'', 0)]\<rparr>)]"

definition test_world_own :: world where
  "test_world_own = \<lparr>heap = [test_ctx_own], trace = [EvDecode ''dsl'', EvInit test_mqtt_def]\<rparr>"

text \<open>
  The pool of \<open>TestNetPool\<close> at its end: two clients under \<open>mqttClient\<close>, and the
  sub-pool that the failed creation of the filter left behind, empty.
\<close>

definition test_pool2 :: NetPool where
  "test_pool2 =
     [(''mqttClient'', \<lparr>PoolNodeType = ''mqttClient'',
                         entries = [(''my_mqtt_client01'', 0), (''my_mqtt_client'', 1)]\<rparr>),
      (''jsFilter'', \<lparr>PoolNodeType = ''jsFilter'', entries = []\<rparr>)]"

definition test_world2 :: world where
  "test_world2 = \<lparr>heap = [test_ctx1, test_ctx_own, test_ctx_js], trace = []\<rparr>"

text \<open>
  The world after the entry \<open>my_mqtt_client01\<close> of \<open>test_pool1\<close> was reloaded in place
  from \<open>dsl\<close>, as the engine test does: the context now has the id \<open>my_mqtt_client\<close>.
\<close>

definition test_world1_self_reloaded :: world where
  "test_world1_self_reloaded =
     \<lparr>heap = [test_ctx_own],
      trace = [EvDecode ''dsl'', EvInit (test_mqtt_def\<lparr>RuleNode_Id := ''my_mqtt_client01''\<rparr>),
               EvDecode ''dsl'', EvInit test_mqtt_def,
               EvDestroyNode (NetResource (Inr (AnyConn 1883)))]\<rparr>"

section \<open>Fixtures of the wrapper and of the resolver test\<close>

text \<open>
  A wrapper over connections that are numbers. The dial function counts its calls in its
  state and hands out a new connection handle at every call; the type assertion accepts
  connections only. \<open>test_node0\<close> is the zero value of the wrapper; \<open>test_node_pooled\<close>
  and \<open>test_node_local\<close> are what \<open>Init\<close> makes of it for \<open>ref://my_mqtt_client01\<close> and
  for \<open>127.0.0.1:1883\<close>. \<open>test_world1_reloaded\<close> is a world in which the context behind
  reference 0 holds another connection, as after a reload of the pooled client. The pipeline scope and the property \<open>name=lala\<close> are
  those of the test \<open>ProcessVariables\<close>.
\<close>

definition test_dial :: "nat \<Rightarrow> (error + nat) \<times> nat" where
  "test_dial s = (Inr (1883 + s), Suc s)"

definition test_asT :: "any \<Rightarrow> nat option" where
  "test_asT p = (case p of AnyConn c \<Rightarrow> Some c | _ \<Rightarrow> None)"

definition test_node0 :: "(nat, nat) NetResourceNode" where
  "test_node0 = \<lparr>RuleConfig = test_Config\<lparr>NetPool := None\<rparr>, NodeType = [], NetResourceId = [],
                  InitNetResourceFunc = None, Connecting = 0\<rparr>"

definition test_node_pooled :: "(nat, nat) NetResourceNode" where
  "test_node_pooled = test_node0\<lparr>RuleConfig := test_Config, NodeType := ''mqttClient'',
                                  NetResourceId := ''my_mqtt_client01''\<rparr>"

definition test_node_local :: "(nat, nat) NetResourceNode" where
  "test_node_local = test_node0\<lparr>RuleConfig := test_Config, NodeType := ''mqttClient'',
                                 InitNetResourceFunc := Some test_dial\<rparr>"

definition test_world1_reloaded :: world where
  "test_world1_reloaded = test_world1\<lparr>heap := [test_ctx1\<lparr>Node := NetResource (Inr (AnyConn 1884))\<rparr>]\<rparr>"

text \<open>The pool store in which every pointer leads to \<open>test_pool1\<close>.\<close>

definition test_pools :: "pool_ptr \<Rightarrow> NetPool" where
  "test_pools a = test_pool1"

definition test_chainCtx :: RuleChainCtx where
  "test_chainCtx = \<lparr>vars = [(''ip'', ''127.0.0.1'')], decryptSecrets = [(''bb'', ''xx'')]\<rparr>"

definition test_Config_lala :: Config where
  "test_Config_lala = test_Config\<lparr>Properties := Some [(''name'', ''lala'')]\<rparr>"

section \<open>Idempotent creation\<close>

lemmas pool_defs = NetPool_New_def NetPool_NewFromDef_def NodeNetPool_New_def NodeNetPool_NewFromDef_def
  LoadOrStore_def Load_def Store_def Delete_def NewNodeNetPool_def InitNetResourceNodeCtx_def
  NewNetResourceCtx_def GetNodeId_def emit_def NetPool_Get_def NodeNetPool_Get_def NewNetPool_def
  Destroy_def

lemmas test_defs = test_Config_def test_mqtt_def_def test_jsFilter_def_def test_world0_def
  test_ctx1_def test_pool1_def test_world1_def test_ctx_js_def test_world_js_def
  test_ctx_noid_def test_pool_noid_def test_world_noid_def
  test_ctx_own_def test_pool_own_def test_world_own_def test_pool2_def test_world2_def

lemma test_pool1_reached:
  "NetPool_New test_Config ''mqttClient'' ''my_mqtt_client01'' ''dsl'' NewNetPool test_world0
     = (Inr 0, test_pool1, test_world1)"
  by (simp add: pool_defs test_defs)

lemma test_pool_noid_reached:
  "NetPool_New test_Config ''mqttClient'' [] ''noIdDsl'' NewNetPool test_world0
     = (Inr 0, test_pool_noid, test_world_noid)"
  by (simp add: pool_defs test_defs)

lemma test_pool_own_reached:
  "NetPool_New test_Config ''mqttClient'' [] ''dsl'' NewNetPool test_world0
     = (Inr 0, test_pool_own, test_world_own)"
  by (simp add: pool_defs test_defs)

lemma test_pool2_reached:
  "(case NetPool_New test_Config ''mqttClient'' ''my_mqtt_client01'' ''dsl'' NewNetPool test_world0 of
      (r1, np1, w1) \<Rightarrow>
        (case NetPool_NewFromDef test_Config test_mqtt_def np1 w1 of
           (r2, np2, w2) \<Rightarrow>
             (case NetPool_New test_Config ''jsFilter'' ''my_jsFilter01'' ''notNetNodeDsl'' np2 w2 of
                (r3, np3, w3) \<Rightarrow> (r1, r2, r3, np3))))
     = (Inr 0, Inr 1, Inl ErrNotImplemented, test_pool2)"
  by (simp add: pool_defs test_defs)

lemma Store_Load_same: "Load k m = Some v \<Longrightarrow> Store k v m = m"
  by (simp add: Load_def Store_def update_triv)

lemma NodeNetPool_New_existing:
  "Load id' (entries n) = Some r \<Longrightarrow> NodeNetPool_New cfg id' dsl n w = (Inr r, n, w)"
  by (simp add: NodeNetPool_New_def)

lemma NodeNetPool_NewFromDef_existing:
  "Load (RuleNode_Id def) (entries n) = Some r \<Longrightarrow>
   NodeNetPool_NewFromDef cfg def n w = (Inr r, n, w)"
  by (simp add: NodeNetPool_NewFromDef_def)

text \<open>
  C1. If the pool already holds an entry for \<open>(nodeType, id')\<close>, then
  \<open>NetPool.New(nodeType, id', dsl)\<close> returns that very reference with no error, and
  leaves the pool, the heap and the trace exactly as they were: nothing is decoded,
  nothing is instantiated, nothing is allocated. This holds for every \<open>dsl\<close> and every
  decoder and component factory.
\<close>

theorem NetPool_New_idempotent:
  assumes "NetPool_Get nodeType id' np = Some r"
  shows "NetPool_New cfg nodeType id' dsl np w = (Inr r, np, w)"
proof -
  from assms obtain v where v: "Load nodeType np = Some v" and r: "Load id' (entries v) = Some r"
    by (auto simp: NetPool_Get_def NodeNetPool_Get_def split: option.splits)
  have "LoadOrStore nodeType (NewNodeNetPool nodeType) np = (v, np)"
    using v by (simp add: LoadOrStore_def)
  moreover have "NodeNetPool_New cfg id' dsl v w = (Inr r, v, w)"
    using r by (rule NodeNetPool_New_existing)
  moreover have "Store nodeType v np = np"
    using v by (rule Store_Load_same)
  ultimately show ?thesis
    by (simp add: NetPool_New_def)
qed

theorem NetPool_New_idempotent_witness:
  "NetPool_Get ''mqttClient'' ''my_mqtt_client01'' test_pool1 = Some 0 \<and>
   NetPool_New test_Config ''mqttClient'' ''my_mqtt_client01'' ''notNetNodeDsl'' test_pool1 test_world1
     = (Inr 0, test_pool1, test_world1)"
proof -
  have h: "NetPool_Get ''mqttClient'' ''my_mqtt_client01'' test_pool1 = Some 0"
    by (simp add: NetPool_Get_def NodeNetPool_Get_def Load_def test_pool1_def)
  from NetPool_New_idempotent [OF h] h show ?thesis by simp
qed

section \<open>Creation from a definition\<close>

lemma NodeNetPool_NewFromDef_unfold:
  "NodeNetPool_NewFromDef cfg def n w =
     (case Load (RuleNode_Id def) (entries n) of
        Some v \<Rightarrow> (Inr v, n, w)
      | None \<Rightarrow>
          (case NewNode cfg def of
             Inl err \<Rightarrow> (Inl err, n, w\<lparr>trace := trace w @ [EvInit def]\<rparr>)
           | Inr node \<Rightarrow>
               if is_NetResource node then
                 (Inr (length (heap w)),
                  n\<lparr>entries := Store (RuleNode_Id def) (length (heap w)) (entries n)\<rparr>,
                  \<lparr>heap = heap w @ [\<lparr>SelfDefinition = def, Node = node\<rparr>], trace = trace w @ [EvInit def]\<rparr>)
               else
                 (Inl ErrNotImplemented, n,
                  \<lparr>heap = heap w @ [\<lparr>SelfDefinition = def, Node = node\<rparr>], trace = trace w @ [EvInit def]\<rparr>)))"
  by (simp add: NodeNetPool_NewFromDef_def InitNetResourceNodeCtx_def NewNetResourceCtx_def
      GetNodeId_def emit_def split: option.splits sum.splits)

lemma test_jsFilter_run:
  "NodeNetPool_NewFromDef test_Config test_jsFilter_def (NewNodeNetPool ''jsFilter'') test_world0
     = (Inl ErrNotImplemented, NewNodeNetPool ''jsFilter'', test_world_js)"
  by (simp add: NodeNetPool_NewFromDef_unfold Load_def NewNodeNetPool_def test_defs
      test_ctx_js_def test_world_js_def)

lemma NodeNetPool_NewFromDef_instantiated:
  assumes "NodeNetPool_NewFromDef cfg def n w = (res, n', w')"
  shows "heap w' = heap w @ [ctx] \<longleftrightarrow>
           Load (RuleNode_Id def) (entries n) = None \<and>
           (\<exists>node. NewNode cfg def = Inr node \<and> ctx = \<lparr>SelfDefinition = def, Node = node\<rparr>)"
  using assms
  by (auto simp: NodeNetPool_NewFromDef_unfold split: option.splits sum.splits if_splits)

text \<open>
  C2. Whenever a call of \<open>NodeNetPool.NewFromDef\<close> instantiates a component (the context
  \<open>ctx\<close> it allocated is the one new element of the heap) and that component does not
  implement \<open>types.NetResource\<close>, the call returns \<open>ErrNotImplemented\<close> and no context,
  and the sub-pool, in particular its entries, is what it was before the call.
\<close>

theorem NodeNetPool_NewFromDef_NotImplemented:
  assumes "NodeNetPool_NewFromDef cfg def n w = (res, n', w')"
    and "heap w' = heap w @ [ctx]"
    and "\<not> is_NetResource (Node ctx)"
  shows "res = Inl ErrNotImplemented \<and> n' = n \<and> entries n' = entries n"
  using assms
  by (auto simp: NodeNetPool_NewFromDef_unfold split: option.splits sum.splits if_splits)

theorem NodeNetPool_NewFromDef_NotImplemented_witness:
  "NodeNetPool_NewFromDef test_Config test_jsFilter_def (NewNodeNetPool ''jsFilter'') test_world0
     = (Inl ErrNotImplemented, NewNodeNetPool ''jsFilter'', test_world_js) \<and>
   heap test_world_js = heap test_world0 @ [test_ctx_js] \<and>
   \<not> is_NetResource (Node test_ctx_js) \<and>
   entries (NewNodeNetPool ''jsFilter'') = []"
proof -
  have h2: "heap test_world_js = heap test_world0 @ [test_ctx_js]"
    by (simp add: test_world_js_def test_world0_def)
  have h3: "\<not> is_NetResource (Node test_ctx_js)"
    by (simp add: test_ctx_js_def)
  from NodeNetPool_NewFromDef_NotImplemented [OF test_jsFilter_run h2 h3] test_jsFilter_run h2 h3
  show ?thesis by (simp add: NewNodeNetPool_def)
qed

text \<open>
  C3, as stated, fails: creating the filter of the pool test in a fresh sub-pool returns
  \<open>ErrNotImplemented\<close> after the context was constructed and allocated (reference 0), and
  the trace of the call holds no \<open>Destroy\<close> of it; the sub-pool does not hold it either.
\<close>

theorem NodeNetPool_NewFromDef_context_not_destroyed:
  "fst (NodeNetPool_NewFromDef test_Config test_jsFilter_def (NewNodeNetPool ''jsFilter'') test_world0)
     = Inl ErrNotImplemented \<and>
   heap (snd (snd (NodeNetPool_NewFromDef test_Config test_jsFilter_def (NewNodeNetPool ''jsFilter'') test_world0)))
     = [test_ctx_js] \<and>
   EvDestroy 0 \<notin> set (trace (snd (snd (NodeNetPool_NewFromDef test_Config test_jsFilter_def
       (NewNodeNetPool ''jsFilter'') test_world0)))) \<and>
   entries (fst (snd (NodeNetPool_NewFromDef test_Config test_jsFilter_def (NewNodeNetPool ''jsFilter'') test_world0)))
     = []"
  unfolding test_jsFilter_run by (simp add: test_world_js_def NewNodeNetPool_def)

text \<open>
  C3, amended. A failing \<open>NodeNetPool.NewFromDef\<close> leaves the sub-pool unchanged and calls
  no \<open>Destroy\<close>: its only effect on the trace is the instantiation attempt. Either no
  context was allocated, or the error is \<open>ErrNotImplemented\<close> and the one context that was
  constructed stays allocated, stored nowhere and not destroyed.
\<close>

theorem NodeNetPool_NewFromDef_failure_effects:
  assumes "NodeNetPool_NewFromDef cfg def n w = (Inl err, n', w')"
  shows "n' = n \<and> trace w' = trace w @ [EvInit def] \<and>
         (heap w' = heap w \<or>
          (err = ErrNotImplemented \<and>
           (\<exists>node. NewNode cfg def = Inr node \<and> \<not> is_NetResource node \<and>
                   heap w' = heap w @ [\<lparr>SelfDefinition = def, Node = node\<rparr>])))"
  using assms
  by (auto simp: NodeNetPool_NewFromDef_unfold split: option.splits sum.splits if_splits)

theorem NodeNetPool_NewFromDef_failure_effects_witness:
  "NodeNetPool_NewFromDef test_Config test_jsFilter_def (NewNodeNetPool ''jsFilter'') test_world0
     = (Inl ErrNotImplemented, NewNodeNetPool ''jsFilter'', test_world_js) \<and>
   trace test_world_js = trace test_world0 @ [EvInit test_jsFilter_def] \<and>
   heap test_world_js \<noteq> heap test_world0"
  using NodeNetPool_NewFromDef_failure_effects [OF test_jsFilter_run] test_jsFilter_run
  by (simp add: test_world_js_def test_world0_def)

section \<open>Key consistency\<close>

lemma list_all_Store:
  "list_all P m \<Longrightarrow> P (k, v) \<Longrightarrow> list_all P (Store k v m)"
  unfolding Store_def by (induction m) auto

lemma list_all_Delete:
  "list_all P m \<Longrightarrow> list_all P (Delete k m)"
  unfolding Delete_def by (induction m) auto

lemma Load_Store_same: "Load k (Store k v m) = Some v"
  by (simp add: Load_def Store_def update_conv')

lemma Load_in_set: "Load k m = Some v \<Longrightarrow> (k, v) \<in> set m"
  by (simp add: Load_def map_of_SomeD)

lemma keys_consistent_grow:
  "keys_consistent n w \<Longrightarrow> heap w' = heap w @ ys \<Longrightarrow> keys_consistent n w'"
  by (auto simp: keys_consistent_def list_all_iff nth_append)

lemma keys_consistent_trace:
  "keys_consistent n (w\<lparr>trace := t\<rparr>) = keys_consistent n w"
  by (simp add: keys_consistent_def)

lemma NodeNetPool_NewFromDef_grows:
  "NodeNetPool_NewFromDef cfg def n w = (res, n', w') \<Longrightarrow> \<exists>ys. heap w' = heap w @ ys"
  by (auto simp: NodeNetPool_NewFromDef_unfold split: option.splits sum.splits if_splits)

lemma NodeNetPool_NewFromDef_consistent:
  assumes "keys_consistent n w" and "NodeNetPool_NewFromDef cfg def n w = (res, n', w')"
  shows "keys_consistent n' w'"
proof (cases "Load (RuleNode_Id def) (entries n)")
  case (Some v)
  with assms show ?thesis by (simp add: NodeNetPool_NewFromDef_unfold)
next
  case None
  show ?thesis
  proof (cases "NewNode cfg def")
    case (Inl err)
    with None assms show ?thesis
      by (auto simp: NodeNetPool_NewFromDef_unfold keys_consistent_trace)
  next
    case (Inr node)
    define w2 where "w2 = \<lparr>heap = heap w @ [\<lparr>SelfDefinition = def, Node = node\<rparr>], trace = trace w @ [EvInit def]\<rparr>"
    have old: "keys_consistent n w2"
      using assms(1) by (rule keys_consistent_grow) (simp add: w2_def)
    show ?thesis
    proof (cases "is_NetResource node")
      case True
      with None Inr assms(2) have n': "n' = n\<lparr>entries := Store (RuleNode_Id def) (length (heap w)) (entries n)\<rparr>"
        and w': "w' = w2"
        by (simp_all add: NodeNetPool_NewFromDef_unfold w2_def)
      have "list_all (\<lambda>(key, r). r < length (heap w2) \<and> GetNodeId (heap w2 ! r) = key)
              (Store (RuleNode_Id def) (length (heap w)) (entries n))"
        using old by (intro list_all_Store) (simp_all add: keys_consistent_def w2_def GetNodeId_def)
      then show ?thesis by (simp add: n' w' keys_consistent_def)
    next
      case False
      with None Inr assms(2) have "n' = n" "w' = w2"
        by (simp_all add: NodeNetPool_NewFromDef_unfold w2_def)
      with old show ?thesis by simp
    qed
  qed
qed

lemma NodeNetPool_NewFromDef_stored:
  "NodeNetPool_NewFromDef cfg def n w = (Inr r, n', w') \<Longrightarrow> Load (RuleNode_Id def) (entries n') = Some r"
  by (auto simp: NodeNetPool_NewFromDef_unfold Load_Store_same split: option.splits sum.splits if_splits)

lemma NodeNetPool_New_grows:
  "NodeNetPool_New cfg id' dsl n w = (res, n', w') \<Longrightarrow> \<exists>ys. heap w' = heap w @ ys"
  by (auto simp: NodeNetPool_New_def emit_def split: option.splits sum.splits
      dest!: NodeNetPool_NewFromDef_grows)

lemma NodeNetPool_New_consistent:
  assumes "keys_consistent n w" and "NodeNetPool_New cfg id' dsl n w = (res, n', w')"
  shows "keys_consistent n' w'"
  using assms
  by (auto simp: NodeNetPool_New_def emit_def keys_consistent_trace split: option.splits sum.splits
      intro: NodeNetPool_NewFromDef_consistent [where w = "w\<lparr>trace := trace w @ [EvDecode dsl]\<rparr>"])

lemma NodeNetPool_New_stored:
  assumes "NodeNetPool_New cfg id' dsl n w = (Inr r, n', w')"
  shows "(id' \<noteq> [] \<longrightarrow> Load id' (entries n') = Some r) \<and>
         (id' = [] \<and> Load [] (entries n) = None \<longrightarrow>
            (\<exists>nodeDef. DecodeRuleNode cfg dsl = Inr nodeDef \<and> Load (RuleNode_Id nodeDef) (entries n') = Some r))"
  using assms
  by (auto simp: NodeNetPool_New_def split: option.splits sum.splits if_splits
      dest!: NodeNetPool_NewFromDef_stored)

lemma NodeNetPool_New_Load:
  assumes "NodeNetPool_New cfg id' dsl n w = (Inr r, n', w')"
  shows "\<exists>k. Load k (entries n') = Some r"
  using assms
  by (auto simp: NodeNetPool_New_def split: option.splits sum.splits if_splits
      dest!: NodeNetPool_NewFromDef_stored)

lemma pool_keys_consistent_grow:
  "pool_keys_consistent np w \<Longrightarrow> heap w' = heap w @ ys \<Longrightarrow> pool_keys_consistent np w'"
  by (auto simp: pool_keys_consistent_def list_all_iff intro: keys_consistent_grow)

lemma LoadOrStore_consistent:
  assumes "pool_keys_consistent np w" and "LoadOrStore nodeType (NewNodeNetPool nodeType) np = (v, np1)"
  shows "pool_keys_consistent np1 w \<and> keys_consistent v w \<and> Load nodeType np1 = Some v"
proof (cases "Load nodeType np")
  case None
  with assms(2) have v: "v = NewNodeNetPool nodeType" and np1: "np1 = Store nodeType v np"
    by (auto simp: LoadOrStore_def)
  have kv: "keys_consistent v w" by (simp add: v NewNodeNetPool_def keys_consistent_def)
  have "pool_keys_consistent np1 w"
    unfolding np1 pool_keys_consistent_def
    using assms(1) kv by (intro list_all_Store) (simp_all add: pool_keys_consistent_def)
  then show ?thesis using kv by (simp add: np1 Load_Store_same)
next
  case (Some u)
  with assms(2) have "v = u" "np1 = np" by (simp_all add: LoadOrStore_def)
  moreover from Some have "(nodeType, u) \<in> set np" by (rule Load_in_set)
  ultimately show ?thesis
    using assms(1) Some by (auto simp: pool_keys_consistent_def list_all_iff)
qed

lemma NetPool_NewFromDef_consistent:
  assumes "pool_keys_consistent np w" and "NetPool_NewFromDef cfg def np w = (res, np', w')"
  shows "pool_keys_consistent np' w'"
proof -
  obtain v np1 where los: "LoadOrStore (RuleNode_Type def) (NewNodeNetPool (RuleNode_Type def)) np = (v, np1)"
    by (cases "LoadOrStore (RuleNode_Type def) (NewNodeNetPool (RuleNode_Type def)) np")
  obtain res1 v' w1 where nn: "NodeNetPool_NewFromDef cfg def v w = (res1, v', w1)"
    by (cases "NodeNetPool_NewFromDef cfg def v w")
  from assms(2) los nn have np': "np' = Store (RuleNode_Type def) v' np1" and w1: "w1 = w'"
    by (simp_all add: NetPool_NewFromDef_def)
  from LoadOrStore_consistent [OF assms(1) los]
  have c1: "pool_keys_consistent np1 w" and cv: "keys_consistent v w" by simp_all
  from NodeNetPool_NewFromDef_grows [OF nn] obtain ys where ys: "heap w' = heap w @ ys"
    by (auto simp: w1)
  have cv': "keys_consistent v' w'"
    using NodeNetPool_NewFromDef_consistent [OF cv nn] by (simp add: w1)
  have c1': "pool_keys_consistent np1 w'"
    using c1 ys by (rule pool_keys_consistent_grow)
  show ?thesis
    unfolding np' pool_keys_consistent_def
    using c1' cv' by (intro list_all_Store) (simp_all add: pool_keys_consistent_def)
qed

lemma NodeNetPool_Del_consistent:
  "keys_consistent n w \<Longrightarrow> NodeNetPool_Del id' n w = (n', w') \<Longrightarrow> keys_consistent n' w'"
  by (auto simp: NodeNetPool_Del_def keys_consistent_def Destroy_def emit_def
      intro: list_all_Delete split: option.splits)

lemma NetPool_Del_consistent:
  assumes "pool_keys_consistent np w" and "NetPool_Del nodeType id' np w = (np', w')"
  shows "pool_keys_consistent np' w'"
proof (cases "Load nodeType np")
  case None
  with assms show ?thesis by (simp add: NetPool_Del_def)
next
  case (Some v)
  obtain v' w1 where d: "NodeNetPool_Del id' v w = (v', w1)" by (cases "NodeNetPool_Del id' v w")
  from assms(2) Some d have np': "np' = Store nodeType v' np" and w1: "w1 = w'"
    by (simp_all add: NetPool_Del_def)
  from Some have "(nodeType, v) \<in> set np" by (rule Load_in_set)
  with assms(1) have cv: "keys_consistent v w"
    by (auto simp: pool_keys_consistent_def list_all_iff)
  have h: "heap w' = heap w @ []"
    using d by (auto simp: NodeNetPool_Del_def Destroy_def emit_def w1 split: option.splits)
  have "keys_consistent v' w'" using NodeNetPool_Del_consistent [OF cv d] by (simp add: w1)
  moreover have "pool_keys_consistent np w'" using assms(1) h by (rule pool_keys_consistent_grow)
  ultimately show ?thesis
    unfolding np' pool_keys_consistent_def
    by (intro list_all_Store) (simp_all add: pool_keys_consistent_def)
qed

lemma NewNetPool_consistent: "pool_keys_consistent NewNetPool w"
  by (simp add: pool_keys_consistent_def NewNetPool_def)

lemma NetPool_New_consistent:
  assumes "pool_keys_consistent np w" and "NetPool_New cfg nodeType id' dsl np w = (res, np', w')"
  shows "pool_keys_consistent np' w'"
proof -
  obtain v np1 where los: "LoadOrStore nodeType (NewNodeNetPool nodeType) np = (v, np1)"
    by (cases "LoadOrStore nodeType (NewNodeNetPool nodeType) np")
  obtain res1 v' w1 where nn: "NodeNetPool_New cfg id' dsl v w = (res1, v', w1)"
    by (cases "NodeNetPool_New cfg id' dsl v w")
  from assms(2) los nn have np': "np' = Store nodeType v' np1" and w1: "w1 = w'"
    by (simp_all add: NetPool_New_def)
  from LoadOrStore_consistent [OF assms(1) los]
  have c1: "pool_keys_consistent np1 w" and cv: "keys_consistent v w" by simp_all
  from NodeNetPool_New_grows [OF nn] obtain ys where ys: "heap w' = heap w @ ys"
    by (auto simp: w1)
  have cv': "keys_consistent v' w'"
    using NodeNetPool_New_consistent [OF cv nn] by (simp add: w1)
  have c1': "pool_keys_consistent np1 w'"
    using c1 ys by (rule pool_keys_consistent_grow)
  show ?thesis
    unfolding np' pool_keys_consistent_def
    using c1' cv' by (intro list_all_Store) (simp_all add: pool_keys_consistent_def)
qed

lemma NetPool_New_success_keys:
  assumes new: "NetPool_New cfg nodeType id' dsl np w = (Inr r, np', w')"
  shows "(id' \<noteq> [] \<longrightarrow> NetPool_Get nodeType id' np' = Some r) \<and>
         (id' = [] \<and> NetPool_Get nodeType [] np = None \<longrightarrow>
            (\<exists>nodeDef. DecodeRuleNode cfg dsl = Inr nodeDef \<and>
                       NetPool_Get nodeType (RuleNode_Id nodeDef) np' = Some r)) \<and>
         (pool_keys_consistent np w \<longrightarrow>
            pool_keys_consistent np' w' \<and> r < length (heap w') \<and>
            NetPool_Get nodeType (GetNodeId (heap w' ! r)) np' = Some r)"
proof -
  obtain v np1 where los: "LoadOrStore nodeType (NewNodeNetPool nodeType) np = (v, np1)"
    by (cases "LoadOrStore nodeType (NewNodeNetPool nodeType) np")
  obtain res v' w1 where nn: "NodeNetPool_New cfg id' dsl v w = (res, v', w1)"
    by (cases "NodeNetPool_New cfg id' dsl v w")
  from new los nn have res: "res = Inr r" and np': "np' = Store nodeType v' np1" and w1: "w1 = w'"
    by (simp_all add: NetPool_New_def)
  have get: "NetPool_Get nodeType k np' = Load k (entries v')" for k
    by (simp add: NetPool_Get_def NodeNetPool_Get_def np' Load_Store_same)
  have empty: "Load [] (entries v) = None" if "NetPool_Get nodeType [] np = None"
  proof (cases "Load nodeType np")
    case None
    with los show ?thesis by (auto simp: LoadOrStore_def NewNodeNetPool_def Load_def)
  next
    case (Some u)
    with los that show ?thesis by (simp add: LoadOrStore_def NetPool_Get_def NodeNetPool_Get_def)
  qed
  from NodeNetPool_New_stored [OF nn [unfolded res]]
  have b: "id' \<noteq> [] \<longrightarrow> NetPool_Get nodeType id' np' = Some r"
    and c: "id' = [] \<and> NetPool_Get nodeType [] np = None \<longrightarrow>
            (\<exists>nodeDef. DecodeRuleNode cfg dsl = Inr nodeDef \<and>
                       NetPool_Get nodeType (RuleNode_Id nodeDef) np' = Some r)"
    using empty by (auto simp: get)
  have d: "pool_keys_consistent np' w' \<and> r < length (heap w') \<and>
           NetPool_Get nodeType (GetNodeId (heap w' ! r)) np' = Some r"
    if inv: "pool_keys_consistent np w"
  proof -
    from LoadOrStore_consistent [OF inv los]
    have c1: "pool_keys_consistent np1 w" and cv: "keys_consistent v w"
      by simp_all
    from NodeNetPool_New_grows [OF nn] obtain ys where ys: "heap w' = heap w @ ys"
      by (auto simp: w1)
    have cv': "keys_consistent v' w'"
      using NodeNetPool_New_consistent [OF cv nn] by (simp add: w1)
    have c1': "pool_keys_consistent np1 w'"
      using c1 ys by (rule pool_keys_consistent_grow)
    have a: "pool_keys_consistent np' w'"
      unfolding np' pool_keys_consistent_def
      using c1' cv' by (intro list_all_Store) (simp_all add: pool_keys_consistent_def)
    from NodeNetPool_New_Load [OF nn [unfolded res]] obtain k where k: "Load k (entries v') = Some r"
      by blast
    then have "(k, r) \<in> set (entries v')" by (rule Load_in_set)
    with cv' have own: "r < length (heap w')" "GetNodeId (heap w' ! r) = k"
      by (auto simp: keys_consistent_def list_all_iff)
    with k a show ?thesis by (simp add: get)
  qed
  from b c d show ?thesis by blast
qed

section \<open>Stopping the pool\<close>

text \<open>Every operation of the pool keeps the keys of its maps distinct.\<close>

lemma distinct_Store: "distinct (map fst m) \<Longrightarrow> distinct (map fst (Store k v m))"
  by (simp add: Store_def distinct_update)

lemma distinct_Delete: "distinct (map fst m) \<Longrightarrow> distinct (map fst (Delete k m))"
  by (simp add: Delete_def distinct_delete)

lemma NodeNetPool_NewFromDef_wf:
  "wf_NodeNetPool n \<Longrightarrow> NodeNetPool_NewFromDef cfg def n w = (res, n', w') \<Longrightarrow> wf_NodeNetPool n'"
  by (auto simp: NodeNetPool_NewFromDef_unfold wf_NodeNetPool_def distinct_Store
      split: option.splits sum.splits if_splits)

lemma NodeNetPool_New_wf:
  "wf_NodeNetPool n \<Longrightarrow> NodeNetPool_New cfg id' dsl n w = (res, n', w') \<Longrightarrow> wf_NodeNetPool n'"
  by (auto simp: NodeNetPool_New_def split: option.splits sum.splits
      dest: NodeNetPool_NewFromDef_wf)

lemma NodeNetPool_Del_wf:
  "wf_NodeNetPool n \<Longrightarrow> NodeNetPool_Del id' n w = (n', w') \<Longrightarrow> wf_NodeNetPool n'"
  by (auto simp: NodeNetPool_Del_def wf_NodeNetPool_def distinct_Delete split: option.splits)

lemma wf_NetPool_Store:
  "wf_NetPool np \<Longrightarrow> wf_NodeNetPool v \<Longrightarrow> wf_NetPool (Store k v np)"
  unfolding wf_NetPool_def
  by (auto intro: distinct_Store list_all_Store)

lemma wf_NetPool_Load:
  "wf_NetPool np \<Longrightarrow> Load k np = Some v \<Longrightarrow> wf_NodeNetPool v"
  by (auto simp: wf_NetPool_def list_all_iff dest: Load_in_set)

lemma LoadOrStore_wf:
  assumes "wf_NetPool np" and "LoadOrStore nodeType (NewNodeNetPool nodeType) np = (v, np1)"
  shows "wf_NetPool np1 \<and> wf_NodeNetPool v"
proof (cases "Load nodeType np")
  case None
  with assms(2) have v: "v = NewNodeNetPool nodeType" and np1: "np1 = Store nodeType v np"
    by (auto simp: LoadOrStore_def)
  have "wf_NodeNetPool v" by (simp add: v NewNodeNetPool_def wf_NodeNetPool_def)
  with assms(1) show ?thesis by (simp add: np1 wf_NetPool_Store)
next
  case (Some u)
  with assms(2) have "v = u" "np1 = np" by (simp_all add: LoadOrStore_def)
  with assms(1) Some show ?thesis by (auto dest: wf_NetPool_Load)
qed

lemma NewNetPool_wf: "wf_NetPool NewNetPool"
  by (simp add: wf_NetPool_def NewNetPool_def)

lemma NetPool_New_wf:
  assumes "wf_NetPool np" and "NetPool_New cfg nodeType id' dsl np w = (res, np', w')"
  shows "wf_NetPool np'"
proof -
  obtain v np1 where los: "LoadOrStore nodeType (NewNodeNetPool nodeType) np = (v, np1)"
    by (cases "LoadOrStore nodeType (NewNodeNetPool nodeType) np")
  obtain res1 v' w1 where nn: "NodeNetPool_New cfg id' dsl v w = (res1, v', w1)"
    by (cases "NodeNetPool_New cfg id' dsl v w")
  from assms(2) los nn have np': "np' = Store nodeType v' np1"
    by (simp add: NetPool_New_def)
  from LoadOrStore_wf [OF assms(1) los] have "wf_NetPool np1" "wf_NodeNetPool v" by simp_all
  then show ?thesis
    unfolding np' using NodeNetPool_New_wf [OF _ nn] by (intro wf_NetPool_Store) simp_all
qed

lemma NetPool_NewFromDef_wf:
  assumes "wf_NetPool np" and "NetPool_NewFromDef cfg def np w = (res, np', w')"
  shows "wf_NetPool np'"
proof -
  obtain v np1 where los: "LoadOrStore (RuleNode_Type def) (NewNodeNetPool (RuleNode_Type def)) np = (v, np1)"
    by (cases "LoadOrStore (RuleNode_Type def) (NewNodeNetPool (RuleNode_Type def)) np")
  obtain res1 v' w1 where nn: "NodeNetPool_NewFromDef cfg def v w = (res1, v', w1)"
    by (cases "NodeNetPool_NewFromDef cfg def v w")
  from assms(2) los nn have np': "np' = Store (RuleNode_Type def) v' np1"
    by (simp add: NetPool_NewFromDef_def)
  from LoadOrStore_wf [OF assms(1) los] have "wf_NetPool np1" "wf_NodeNetPool v" by simp_all
  then show ?thesis
    unfolding np' using NodeNetPool_NewFromDef_wf [OF _ nn] by (intro wf_NetPool_Store) simp_all
qed

lemma NetPool_Del_wf:
  assumes "wf_NetPool np" and "NetPool_Del nodeType id' np w = (np', w')"
  shows "wf_NetPool np'"
proof (cases "Load nodeType np")
  case None
  with assms show ?thesis by (simp add: NetPool_Del_def)
next
  case (Some v)
  obtain v' w1 where d: "NodeNetPool_Del id' v w = (v', w1)" by (cases "NodeNetPool_Del id' v w")
  from assms(2) Some d have np': "np' = Store nodeType v' np"
    by (simp add: NetPool_Del_def)
  from wf_NetPool_Load [OF assms(1) Some] have "wf_NodeNetPool v" .
  then have "wf_NodeNetPool v'" using d by (rule NodeNetPool_Del_wf)
  with assms(1) show ?thesis unfolding np' by (rule wf_NetPool_Store)
qed

lemma NodeNetPool_Del_entries:
  "entries (fst (NodeNetPool_Del k n w)) = AList.delete k (entries n)"
  by (auto simp: NodeNetPool_Del_def Load_def Delete_def map_of_eq_None_iff split: option.splits)

lemma fold_Del_entries:
  "entries (fst (fold (\<lambda>(key, value) (n', w'). NodeNetPool_Del key n' w') xs (n, w)))
     = filter (\<lambda>(k, v). k \<notin> fst ` set xs) (entries n)"
proof (induction xs arbitrary: n w)
  case Nil
  then show ?case by simp
next
  case (Cons x xs)
  obtain k r where x: "x = (k, r)" by (cases x)
  obtain n1 w1 where d: "NodeNetPool_Del k n w = (n1, w1)" by (cases "NodeNetPool_Del k n w")
  have e: "entries n1 = AList.delete k (entries n)"
    using NodeNetPool_Del_entries [of k n w] d by simp
  show ?case
    using Cons.IH [of n1 w1] by (auto simp: x d e AList.delete_eq intro: filter_cong)
qed

lemma NodeNetPool_Stop_empties: "entries (fst (NodeNetPool_Stop n w)) = []"
  unfolding NodeNetPool_Stop_def fold_Del_entries
  by (force simp: filter_empty_conv)

lemma fold_Del_distinct:
  "distinct (map fst xs) \<Longrightarrow>
   fold (\<lambda>(key, value) (n', w'). NodeNetPool_Del key n' w') xs (n\<lparr>entries := xs\<rparr>, w)
     = (n\<lparr>entries := []\<rparr>, w\<lparr>trace := trace w @ map EvDestroy (map snd xs)\<rparr>)"
proof (induction xs arbitrary: w)
  case Nil
  then show ?case by simp
next
  case (Cons x xs)
  obtain k r where x: "x = (k, r)" by (cases x)
  from Cons.prems have k: "k \<notin> fst ` set xs" and dist: "distinct (map fst xs)"
    by (auto simp: x)
  have "NodeNetPool_Del k (n\<lparr>entries := x # xs\<rparr>) w = (n\<lparr>entries := xs\<rparr>, Destroy r w)"
    using k by (simp add: NodeNetPool_Del_def Load_def Delete_def x)
  then show ?case
    using Cons.IH [OF dist, of "Destroy r w"] by (simp add: x Destroy_def emit_def)
qed

lemma NodeNetPool_Stop_result:
  assumes "wf_NodeNetPool n"
  shows "NodeNetPool_Stop n w = (n\<lparr>entries := []\<rparr>, w\<lparr>trace := trace w @ map EvDestroy (map snd (entries n))\<rparr>)"
  using fold_Del_distinct [of "entries n" n w] assms
  by (simp add: NodeNetPool_Stop_def wf_NodeNetPool_def)

lemma fold_Stop_map:
  "fst (fold (\<lambda>(key, value) (np', w'). (Delete key np', snd (NodeNetPool_Stop value w'))) xs (np, w))
     = filter (\<lambda>(k, v). k \<notin> fst ` set xs) np"
proof (induction xs arbitrary: np w)
  case Nil
  then show ?case by simp
next
  case (Cons x xs)
  obtain k v where x: "x = (k, v)" by (cases x)
  show ?case
    using Cons.IH [of "Delete k np" "snd (NodeNetPool_Stop v w)"]
    by (auto simp: x Delete_def AList.delete_eq intro: filter_cong)
qed

lemma fold_Stop_world:
  "list_all (\<lambda>(key, value). wf_NodeNetPool value) xs \<Longrightarrow>
   snd (fold (\<lambda>(key, value) (np', w'). (Delete key np', snd (NodeNetPool_Stop value w'))) xs (np, w))
     = w\<lparr>trace := trace w @ map EvDestroy (pool_refs xs)\<rparr>"
proof (induction xs arbitrary: np w)
  case Nil
  then show ?case by (simp add: pool_refs_def)
next
  case (Cons x xs)
  obtain k v where x: "x = (k, v)" by (cases x)
  from Cons.prems have wfv: "wf_NodeNetPool v" and rest: "list_all (\<lambda>(key, value). wf_NodeNetPool value) xs"
    by (auto simp: x)
  show ?case
    using Cons.IH [OF rest, of "Delete k np" "snd (NodeNetPool_Stop v w)"]
    by (simp add: x NodeNetPool_Stop_result [OF wfv] pool_refs_def)
qed

text \<open>
  C7. \<open>NetPool.Stop\<close> on a pool whose maps have distinct keys leaves the outer map empty, so
  that \<open>GetAll\<close> returns the empty collection and \<open>Get\<close> finds nothing for any type;
  \<open>Destroy\<close> has been called exactly once on every entry of every sub-pool, and nothing
  else happened; and every sub-pool, once stopped, has no entries.
\<close>

theorem NetPool_Stop_destroys_and_empties:
  assumes "wf_NetPool np"
    and "NetPool_Stop np w = (np', w')"
  shows "np' = [] \<and> NetPool_GetAll np' = [] \<and> NetPool_Get nodeType id' np' = None \<and>
         trace w' = trace w @ map EvDestroy (pool_refs np) \<and> heap w' = heap w \<and>
         list_all (\<lambda>(key, value). entries (fst (NodeNetPool_Stop value w1)) = []) np"
proof -
  have "fst (NetPool_Stop np w) = []"
    unfolding NetPool_Stop_def fold_Stop_map by (force simp: filter_empty_conv)
  with assms(2) have e: "np' = []" by simp
  have "snd (NetPool_Stop np w) = w\<lparr>trace := trace w @ map EvDestroy (pool_refs np)\<rparr>"
    unfolding NetPool_Stop_def using assms(1) by (intro fold_Stop_world) (simp add: wf_NetPool_def)
  with assms(2) have t: "w' = w\<lparr>trace := trace w @ map EvDestroy (pool_refs np)\<rparr>" by simp
  have s: "list_all (\<lambda>(key, value). entries (fst (NodeNetPool_Stop value w1)) = []) np"
    by (simp add: list_all_iff NodeNetPool_Stop_empties split: prod.splits)
  show ?thesis
    using e t s by (simp add: NetPool_GetAll_def NetPool_Get_def Load_def)
qed

theorem NetPool_Stop_destroys_and_empties_witness:
  "wf_NetPool test_pool2 \<and>
   NetPool_Stop test_pool2 test_world2
     = ([], test_world2\<lparr>trace := [EvDestroy 0, EvDestroy 1]\<rparr>) \<and>
   pool_refs test_pool2 = [0, 1] \<and>
   NetPool_GetAll [] = [] \<and>
   NetPool_Get ''mqttClient'' ''my_mqtt_client01'' [] = None"
proof -
  have wf: "wf_NetPool test_pool2"
    by (simp add: wf_NetPool_def wf_NodeNetPool_def test_pool2_def)
  have refs: "pool_refs test_pool2 = [0, 1]"
    by (simp add: pool_refs_def test_pool2_def)
  obtain np' w' where st: "NetPool_Stop test_pool2 test_world2 = (np', w')"
    by (cases "NetPool_Stop test_pool2 test_world2")
  from NetPool_Stop_destroys_and_empties [OF wf st, of "''mqttClient''" "''my_mqtt_client01''" test_world2]
  have "np' = []" "trace w' = trace test_world2 @ map EvDestroy (pool_refs test_pool2)" "heap w' = heap test_world2"
    "NetPool_GetAll np' = []" "NetPool_Get ''mqttClient'' ''my_mqtt_client01'' np' = None"
    by blast+
  then show ?thesis
    using wf refs st by (cases w') (simp add: test_world2_def)
qed

section \<open>Key consistency of the reachable pools\<close>

lemma NetPool_Stop_map_empty: "fst (NetPool_Stop np w) = []"
  unfolding NetPool_Stop_def fold_Stop_map by (force simp: filter_empty_conv)

lemma pool_step_consistent:
  assumes "pool_keys_consistent np w" and "pool_step cfg op (np, w) = (np', w')"
  shows "pool_keys_consistent np' w'"
proof (cases op)
  case (OpNew nodeType id' dsl)
  obtain res where "NetPool_New cfg nodeType id' dsl np w = (res, np', w')"
    using assms(2) OpNew by (cases "NetPool_New cfg nodeType id' dsl np w") simp
  with assms(1) show ?thesis by (rule NetPool_New_consistent)
next
  case (OpNewFromDef def)
  obtain res where "NetPool_NewFromDef cfg def np w = (res, np', w')"
    using assms(2) OpNewFromDef by (cases "NetPool_NewFromDef cfg def np w") simp
  with assms(1) show ?thesis by (rule NetPool_NewFromDef_consistent)
next
  case (OpDel nodeType id')
  with assms show ?thesis by (auto intro: NetPool_Del_consistent)
next
  case OpStop
  with assms(2) have "np' = []" using NetPool_Stop_map_empty [of np w] by simp
  then show ?thesis by (simp add: pool_keys_consistent_def)
qed

lemma pool_run_consistent:
  "pool_keys_consistent np w \<Longrightarrow>
   pool_keys_consistent (fst (pool_run cfg ops (np, w))) (snd (pool_run cfg ops (np, w)))"
proof (induction ops arbitrary: np w)
  case Nil
  then show ?case by (simp add: pool_run_def)
next
  case (Cons op ops)
  obtain np1 w1 where st: "pool_step cfg op (np, w) = (np1, w1)" by (cases "pool_step cfg op (np, w)")
  from Cons.prems st have "pool_keys_consistent np1 w1" by (rule pool_step_consistent)
  from Cons.IH [OF this] show ?case by (simp add: pool_run_def st)
qed

lemma test_reload:
  "ReloadSelf test_Config 0 ''dsl'' test_world1 = (None, test_world1_self_reloaded)"
  by (simp add: ReloadSelf_def InitNetResourceNodeCtx_def emit_def test_defs test_world1_self_reloaded_def)

text \<open>
  C10, amended. In every pool reached from the empty pool by the pool's own operations
  (\<open>New\<close>, \<open>NewFromDef\<close>, \<open>Del\<close>, \<open>Stop\<close>), every entry is stored under the id of its own
  context. After a successful \<open>NetPool.New(nodeType, id', dsl)\<close>: with a non-empty \<open>id'\<close>
  the returned entry is what \<open>Get(nodeType, id')\<close> finds; with an empty \<open>id'\<close>, and no entry
  stored under the empty id before the call, \<open>dsl\<close> was decoded and the returned entry is
  what \<open>Get\<close> finds under the id of the decoded definition; and where every entry was stored
  under the id of its own context before the call, this still holds after it and the
  returned entry is found under its own id.
\<close>

theorem NetPool_New_key_consistency:
  "pool_keys_consistent (fst (pool_run cfg ops (NewNetPool, wi))) (snd (pool_run cfg ops (NewNetPool, wi))) \<and>
   (NetPool_New cfg nodeType id' dsl np w = (Inr r, np', w') \<longrightarrow>
      (id' \<noteq> [] \<longrightarrow> NetPool_Get nodeType id' np' = Some r) \<and>
      (id' = [] \<and> NetPool_Get nodeType [] np = None \<longrightarrow>
         (\<exists>nodeDef. DecodeRuleNode cfg dsl = Inr nodeDef \<and>
                    NetPool_Get nodeType (RuleNode_Id nodeDef) np' = Some r)) \<and>
      (pool_keys_consistent np w \<longrightarrow>
         pool_keys_consistent np' w' \<and> r < length (heap w') \<and>
         NetPool_Get nodeType (GetNodeId (heap w' ! r)) np' = Some r))"
proof -
  have reach: "pool_keys_consistent (fst (pool_run cfg ops (NewNetPool, wi)))
                 (snd (pool_run cfg ops (NewNetPool, wi)))"
    using NewNetPool_consistent by (rule pool_run_consistent)
  have new: "(id' \<noteq> [] \<longrightarrow> NetPool_Get nodeType id' np' = Some r) \<and>
      (id' = [] \<and> NetPool_Get nodeType [] np = None \<longrightarrow>
         (\<exists>nodeDef. DecodeRuleNode cfg dsl = Inr nodeDef \<and>
                    NetPool_Get nodeType (RuleNode_Id nodeDef) np' = Some r)) \<and>
      (pool_keys_consistent np w \<longrightarrow>
         pool_keys_consistent np' w' \<and> r < length (heap w') \<and>
         NetPool_Get nodeType (GetNodeId (heap w' ! r)) np' = Some r)"
    if "NetPool_New cfg nodeType id' dsl np w = (Inr r, np', w')"
    using that by (rule NetPool_New_success_keys)
  from reach new show ?thesis by blast
qed

text \<open>
  C10, as stated, fails twice. First, in its last clause: \<open>New("mqttClient", "", noIdDsl)\<close>
  on the empty pool stores its entry under the empty id, the id of its own context; a
  following \<open>New("mqttClient", "", dsl)\<close> finds that entry under the empty id and returns it
  without decoding \<open>dsl\<close>, and under \<open>my_mqtt_client\<close>, the id of the definition \<open>dsl\<close>
  decodes to, \<open>Get\<close> finds nothing. Second, in the invariant: the entry that
  \<open>New("mqttClient", "my_mqtt_client01", dsl)\<close> stores is reloaded in place from \<open>dsl\<close>, as
  the engine test does; the pool still holds it under \<open>my_mqtt_client01\<close>, while the id of
  its context is now \<open>my_mqtt_client\<close>.
\<close>

theorem NetPool_key_consistency_fails:
  "NetPool_New test_Config ''mqttClient'' [] ''noIdDsl'' NewNetPool test_world0
     = (Inr 0, test_pool_noid, test_world_noid) \<and>
   pool_keys_consistent test_pool_noid test_world_noid \<and>
   NetPool_New test_Config ''mqttClient'' [] ''dsl'' test_pool_noid test_world_noid
     = (Inr 0, test_pool_noid, test_world_noid) \<and>
   DecodeRuleNode test_Config ''dsl'' = Inr test_mqtt_def \<and>
   NetPool_Get ''mqttClient'' (RuleNode_Id test_mqtt_def) test_pool_noid = None \<and>
   NetPool_New test_Config ''mqttClient'' ''my_mqtt_client01'' ''dsl'' NewNetPool test_world0
     = (Inr 0, test_pool1, test_world1) \<and>
   ReloadSelf test_Config 0 ''dsl'' test_world1 = (None, test_world1_self_reloaded) \<and>
   NetPool_Get ''mqttClient'' ''my_mqtt_client01'' test_pool1 = Some 0 \<and>
   GetNodeId (heap test_world1_self_reloaded ! 0) = ''my_mqtt_client'' \<and>
   \<not> pool_keys_consistent test_pool1 test_world1_self_reloaded"
  unfolding test_reload test_pool1_reached
  by (simp add: pool_defs test_defs pool_keys_consistent_def keys_consistent_def
      test_world1_self_reloaded_def)

theorem NetPool_New_key_consistency_witness:
  "fst (pool_run test_Config
          [OpNew ''mqttClient'' ''my_mqtt_client01'' ''dsl'', OpNewFromDef test_mqtt_def,
           OpNew ''jsFilter'' ''my_jsFilter01'' ''notNetNodeDsl'']
          (NewNetPool, test_world0)) = test_pool2 \<and>
   pool_keys_consistent test_pool2
     (snd (pool_run test_Config
          [OpNew ''mqttClient'' ''my_mqtt_client01'' ''dsl'', OpNewFromDef test_mqtt_def,
           OpNew ''jsFilter'' ''my_jsFilter01'' ''notNetNodeDsl'']
          (NewNetPool, test_world0))) \<and>
   pool_keys_consistent NewNetPool test_world0 \<and>
   NetPool_New test_Config ''mqttClient'' ''my_mqtt_client01'' ''dsl'' NewNetPool test_world0
     = (Inr 0, test_pool1, test_world1) \<and>
   pool_keys_consistent test_pool1 test_world1 \<and>
   NetPool_Get ''mqttClient'' ''my_mqtt_client01'' test_pool1 = Some 0 \<and>
   NetPool_New test_Config ''mqttClient'' [] ''dsl'' NewNetPool test_world0
     = (Inr 0, test_pool_own, test_world_own) \<and>
   NetPool_Get ''mqttClient'' [] NewNetPool = None \<and>
   DecodeRuleNode test_Config ''dsl'' = Inr test_mqtt_def \<and>
   NetPool_Get ''mqttClient'' (RuleNode_Id test_mqtt_def) test_pool_own = Some 0 \<and>
   NetPool_Get ''mqttClient'' (GetNodeId (heap test_world_own ! 0)) test_pool_own = Some 0"
proof -
  have run: "fst (pool_run test_Config
          [OpNew ''mqttClient'' ''my_mqtt_client01'' ''dsl'', OpNewFromDef test_mqtt_def,
           OpNew ''jsFilter'' ''my_jsFilter01'' ''notNetNodeDsl'']
          (NewNetPool, test_world0)) = test_pool2"
    by (simp add: pool_run_def pool_defs test_defs)
  have inv: "pool_keys_consistent NewNetPool test_world0"
    by (simp add: pool_keys_consistent_def NewNetPool_def)
  have none: "NetPool_Get ''mqttClient'' [] NewNetPool = None"
    by (simp add: NetPool_Get_def NewNetPool_def Load_def)
  have dec: "DecodeRuleNode test_Config ''dsl'' = Inr test_mqtt_def"
    by (simp add: test_Config_def)
  from NetPool_New_key_consistency [where cfg = test_Config and wi = test_world0
          and ops = "[OpNew ''mqttClient'' ''my_mqtt_client01'' ''dsl'', OpNewFromDef test_mqtt_def,
                      OpNew ''jsFilter'' ''my_jsFilter01'' ''notNetNodeDsl'']"
          and nodeType = "''mqttClient''" and id' = "''my_mqtt_client01''" and dsl = "''dsl''"
          and np = NewNetPool and w = test_world0 and r = 0 and np' = test_pool1 and w' = test_world1]
       NetPool_New_key_consistency [where cfg = test_Config and wi = test_world0 and ops = "[]"
          and nodeType = "''mqttClient''" and id' = "[]" and dsl = "''dsl''"
          and np = NewNetPool and w = test_world0 and r = 0 and np' = test_pool_own and w' = test_world_own]
       run inv none dec test_pool1_reached test_pool_own_reached
  show ?thesis by simp
qed

section \<open>The lazy connection wrapper\<close>










lemma Init_nil_func_panics:
  "\<not> IsNetPool ruleConfig server \<Longrightarrow>
   fst (Init x ruleConfig nodeType server None s) = Some (Panic ''nil func'')"
  by (simp add: Init_def GetNetResourceId_def Let_def)

text \<open>
  C5, as stated, fails in local mode: \<open>GetClient\<close> does not return the connection that was
  dialed. \<open>Init\<close> for \<open>127.0.0.1:1883\<close> calls the dial function once, which dials the
  connection 1883, and drops it; the two calls of \<open>GetClient\<close> that follow each call the dial
  function again and return the connections 1884 and 1885.
\<close>

theorem GetClient_local_dials_again:
  "Init test_node0 test_Config ''mqttClient'' ''127.0.0.1:1883'' (Some test_dial) 0
     = (None, test_node_local, 1) \<and>
   fst (test_dial 0) = Inr 1883 \<and>
   GetClient test_asT test_node_local test_pools test_world1 1 = (Inr 1884, 2) \<and>
   GetClient test_asT test_node_local test_pools test_world1 2 = (Inr 1885, 3)"
  by (simp add: Init_def GetClient_def GetNetResourceId_def IsNetPool_def HasPrefix_def
      NodeConfigurationPrefixNetResource_def test_dial_def test_node0_def test_node_local_def Let_def)

text \<open>
  C5, amended. \<open>GetClient\<close> in pooled mode (a non-empty \<open>NetResourceId\<close>) fails with
  \<open>ErrNetPoolNil\<close> when no pool is configured, and otherwise returns what
  \<open>GetNetResource(NodeType, NetResourceId)\<close> finds in the pool as it is at the moment of the
  call, never dialling; the wrapper has no field in which a connection could be kept. In
  local mode every call invokes the stored dial function again, at the state the dialling
  is in, and returns what that invocation returns; it fails with \<open>ErrClientNotInit\<close> when
  there is no dial function.
\<close>

theorem GetClient_contract:
  "(NetResourceId x \<noteq> [] \<and> NetPool (RuleConfig x) = None \<longrightarrow>
      GetClient asT x pools w s = (Inl ErrNetPoolNil, s)) \<and>
   (NetResourceId x \<noteq> [] \<and> NetPool (RuleConfig x) = Some a \<longrightarrow>
      GetClient asT x pools w s =
        (case NetPool_GetNetResource (NodeType x) (NetResourceId x) (pools a) w of
           Inr p \<Rightarrow> (case asT p of Some c \<Rightarrow> Inr c | None \<Rightarrow> Inl (Panic ''interface conversion''))
         | Inl err \<Rightarrow> Inl err, s)) \<and>
   (NetResourceId x = [] \<and> InitNetResourceFunc x = Some f \<longrightarrow>
      GetClient asT x pools w s = f s) \<and>
   (NetResourceId x = [] \<and> InitNetResourceFunc x = None \<longrightarrow>
      GetClient asT x pools w s = (Inl ErrClientNotInit, s))"
  by (auto simp: GetClient_def split: sum.splits option.splits)

lemmas wrapper_defs = NetPool_GetNetResource_def NodeNetPool_GetNetResource_def NodeNetPool_Get_def
  NetResourceCtx_GetNetResource_def Load_def

lemmas wrapper_test_defs = test_node0_def test_node_pooled_def test_node_local_def test_dial_def
  test_asT_def test_world1_reloaded_def

theorem GetClient_contract_witness:
  "GetClient test_asT test_node_pooled (\<lambda>a. test_pool1) test_world1 5 = (Inr 1883, 5) \<and>
   GetClient test_asT test_node_pooled (\<lambda>a. test_pool1) test_world1_reloaded 5 = (Inr 1884, 5) \<and>
   GetClient test_asT test_node_pooled (\<lambda>a. []) test_world1 5
     = (Inl (ErrNotFound ''my_mqtt_client01''), 5) \<and>
   GetClient test_asT (test_node_pooled\<lparr>RuleConfig := test_Config\<lparr>NetPool := None\<rparr>\<rparr>)
       (\<lambda>a. test_pool1) test_world1 5 = (Inl ErrNetPoolNil, 5) \<and>
   GetClient test_asT test_node_local (\<lambda>a. test_pool1) test_world1 5 = (Inr 1888, 6) \<and>
   GetClient test_asT test_node0 (\<lambda>a. test_pool1) test_world1 5 = (Inl ErrClientNotInit, 5)"
  using GetClient_contract [of test_node_pooled test_asT "\<lambda>a. test_pool1" test_world1 5 0 test_dial]
        GetClient_contract [of test_node_pooled test_asT "\<lambda>a. test_pool1" test_world1_reloaded 5 0 test_dial]
        GetClient_contract [of test_node_pooled test_asT "\<lambda>a. []" test_world1 5 0 test_dial]
        GetClient_contract [of "test_node_pooled\<lparr>RuleConfig := test_Config\<lparr>NetPool := None\<rparr>\<rparr>"
                               test_asT "\<lambda>a. test_pool1" test_world1 5 0 test_dial]
        GetClient_contract [of test_node_local test_asT "\<lambda>a. test_pool1" test_world1 5 0 test_dial]
        GetClient_contract [of test_node0 test_asT "\<lambda>a. test_pool1" test_world1 5 0 test_dial]
  by (simp add: wrapper_defs wrapper_test_defs test_defs)

lemma guard_run_append:
  "guard_run (ops1 @ ops2) x =
     (case guard_run ops1 x of (rs1, x1) \<Rightarrow>
        (case guard_run ops2 x1 of (rs2, x2) \<Rightarrow> (rs1 @ rs2, x2)))"
  by (induction ops1 arbitrary: x) (auto split: prod.splits)

lemma guard_run_length: "length (fst (guard_run ops x)) = length ops"
proof (induction ops arbitrary: x)
  case Nil
  then show ?case by simp
next
  case (Cons op ops)
  obtain r x' where st: "guard_step op x = (r, x')" by (cases "guard_step op x")
  obtain rs x'' where rn: "guard_run ops x' = (rs, x'')" by (cases "guard_run ops x'")
  from Cons.IH [of x'] show ?case
    by (simp add: st rn)
qed

lemma Connect_busy: "Connecting (snd (Connect x)) \<noteq> 0"
  by (simp add: Connect_def)

lemma guard_step_busy:
  "Connecting x \<noteq> 0 \<Longrightarrow> op \<noteq> OpConnected \<Longrightarrow> Connecting (snd (guard_step op x)) \<noteq> 0"
  by (cases op) (auto simp: Connect_def)

lemma guard_run_busy:
  "Connecting x \<noteq> 0 \<Longrightarrow> OpConnected \<notin> set ops \<Longrightarrow> Connecting (snd (guard_run ops x)) \<noteq> 0"
proof (induction ops arbitrary: x)
  case Nil
  then show ?case by simp
next
  case (Cons op ops)
  obtain r x' where st: "guard_step op x = (r, x')" by (cases "guard_step op x")
  obtain rs x'' where rn: "guard_run ops x' = (rs, x'')" by (cases "guard_run ops x'")
  from Cons.prems have "Connecting (snd (guard_step op x)) \<noteq> 0"
    by (intro guard_step_busy) auto
  with Cons.IH [of x'] Cons.prems show ?case
    by (simp add: st rn)
qed

lemma guard_run_idle_or_busy:
  "Connecting x = 0 \<or> Connecting x = 1 \<Longrightarrow>
   Connecting (snd (guard_run ops x)) = 0 \<or> Connecting (snd (guard_run ops x)) = 1"
proof (induction ops arbitrary: x)
  case Nil
  then show ?case by simp
next
  case (Cons op ops)
  obtain r x' where st: "guard_step op x = (r, x')" by (cases "guard_step op x")
  obtain rs x'' where rn: "guard_run ops x' = (rs, x'')" by (cases "guard_run ops x'")
  have "Connecting (snd (guard_step op x)) = 0 \<or> Connecting (snd (guard_step op x)) = 1"
    using Cons.prems by (cases op) (auto simp: Connect_def Connected_def)
  with Cons.IH [of x'] show ?case
    by (simp add: st rn)
qed

text \<open>
  C8. \<open>Connect\<close> returns true and sets the flag to 1 exactly when the flag was 0, and
  returns false and changes nothing otherwise; \<open>IsConnecting\<close> tells whether the flag is
  1; \<open>Connected\<close> sets it to 0. In every sequence of guard operations that starts idle,
  a \<open>Connect\<close> that follows a \<open>Connect\<close> which returned true, with no \<open>Connected\<close>
  between the two, returns false.
\<close>

theorem connect_guard:
  "Connect x = (if Connecting x = 0 then (True, x\<lparr>Connecting := 1\<rparr>) else (False, x)) \<and>
   IsConnecting x = (Connecting x = 1) \<and>
   Connected x = x\<lparr>Connecting := 0\<rparr> \<and>
   (Connecting x = 0 \<and> OpConnected \<notin> set mid \<and>
    fst (guard_run (pre @ OpConnect # mid @ OpConnect # post) x) ! length pre = ResBool True
    \<longrightarrow> fst (guard_run (pre @ OpConnect # mid @ OpConnect # post) x) ! (length pre + 1 + length mid)
          = ResBool False)"
proof -
  have seq: "fst (guard_run (pre @ OpConnect # mid @ OpConnect # post) x) ! (length pre + 1 + length mid)
          = ResBool False" if nc: "OpConnected \<notin> set mid"
  proof -
    obtain rs1 x1 where r1: "guard_run pre x = (rs1, x1)" by (cases "guard_run pre x")
    obtain b x2 where c1: "Connect x1 = (b, x2)" by (cases "Connect x1")
    obtain rs3 x3 where r3: "guard_run mid x2 = (rs3, x3)" by (cases "guard_run mid x2")
    obtain b' x4 where c2: "Connect x3 = (b', x4)" by (cases "Connect x3")
    obtain rs5 x5 where r5: "guard_run post x4 = (rs5, x5)" by (cases "guard_run post x4")
    have l1: "length rs1 = length pre" using guard_run_length [of pre x] r1 by simp
    have l3: "length rs3 = length mid" using guard_run_length [of mid x2] r3 by simp
    have "Connecting x2 \<noteq> 0" using Connect_busy [of x1] c1 by simp
    then have "Connecting x3 \<noteq> 0" using guard_run_busy [OF _ nc, of x2] r3 by simp
    then have b': "b' = False" using c2 by (auto simp: Connect_def)
    have "fst (guard_run (pre @ OpConnect # mid @ OpConnect # post) x)
            = rs1 @ ResBool b # rs3 @ ResBool b' # rs5"
      by (simp add: guard_run_append r1 c1 r3 c2 r5)
    then show ?thesis
      using l1 l3 b' by (simp add: nth_append)
  qed
  show ?thesis
    using seq by (simp add: Connect_def IsConnecting_def Connected_def)
qed

theorem connect_guard_witness:
  "Connecting test_node0 = 0 \<and> OpConnected \<notin> set [OpIsConnecting, OpConnect] \<and>
   fst (guard_run ([OpIsConnecting] @ OpConnect # [OpIsConnecting, OpConnect] @ OpConnect # [OpConnected, OpConnect])
          test_node0)
     = [ResBool False, ResBool True, ResBool True, ResBool False, ResBool False, ResUnit, ResBool True]"
  using connect_guard [of test_node0 "[OpIsConnecting, OpConnect]" "[OpIsConnecting]" "[OpConnected, OpConnect]"]
  by (simp add: Connect_def IsConnecting_def Connected_def test_node0_def)

section \<open>Child reload and variable resolution\<close>

text \<open>
  C4. For a context whose component type is not composite, \<open>ReloadChild\<close> returns the
  error value \<open>UnsupportedOperation\<close> and leaves the context as it was; what it returns is
  never a panic.
\<close>

theorem ReloadChild_unsupported:
  "ReloadChild None ctx childId dsl = (Some UnsupportedOperation, ctx) \<and>
   fst (ReloadChild None ctx childId dsl) \<noteq> Some (Panic msg)"
  by (simp add: ReloadChild_def)

theorem ReloadChild_unsupported_witness:
  "ReloadChild None test_ctx1 [] [] = (Some UnsupportedOperation, test_ctx1)"
  using ReloadChild_unsupported [of test_ctx1 "[]" "[]" "[]"] by simp

lemma scan_inside:
  "CHR ''}'' \<notin> set key \<Longrightarrow>
   scan_placeholders lk (Some body) (key @ CHR ''}'' # post) =
     (case lk (body @ key) of Some v \<Rightarrow> v | None \<Rightarrow> ''${'' @ body @ key @ ''}'')
       @ scan_placeholders lk None post"
  by (induction key arbitrary: body) (auto split: option.splits)

lemma scan_outside:
  "\<not> has_opener pre \<Longrightarrow>
   scan_placeholders lk None (pre @ CHR ''$'' # CHR ''{'' # rest) =
     pre @ scan_placeholders lk (Some []) rest"
  by (induction pre rule: has_opener.induct) auto

lemma scan_placeholder:
  assumes "\<not> has_opener pre" and "CHR ''}'' \<notin> set key"
  shows "scan_placeholders lk None (pre @ ''${'' @ key @ ''}'' @ post) =
           pre @ (case lk key of Some v \<Rightarrow> v | None \<Rightarrow> ''${'' @ key @ ''}'')
               @ scan_placeholders lk None post"
  using scan_outside [OF assms(1), of lk "key @ ''}'' @ post"] scan_inside [OF assms(2), of lk "[]" post]
  by (simp split: option.splits)

lemma lookup_global:
  "lookup_placeholder config chainCtx (''global.'' @ name) =
     (case Properties config of None \<Rightarrow> None | Some props \<Rightarrow> map_of props name)"
  by (simp add: lookup_placeholder_def split: option.splits)

lemma lookup_vars:
  "lookup_placeholder config chainCtx (''vars.'' @ name) =
     (case chainCtx of None \<Rightarrow> None | Some c \<Rightarrow> map_of (vars c @ decryptSecrets c) name)"
  by (simp add: lookup_placeholder_def split: option.splits)

lemma resolve_global:
  assumes "\<not> has_opener pre" and "CHR ''}'' \<notin> set name"
  shows "resolve_string config chainCtx (pre @ ''${global.'' @ name @ ''}'' @ post) =
           pre @ (case Properties config of
                    None \<Rightarrow> ''${global.'' @ name @ ''}''
                  | Some props \<Rightarrow>
                      (case map_of props name of Some v \<Rightarrow> v | None \<Rightarrow> ''${global.'' @ name @ ''}''))
               @ resolve_string config chainCtx post"
proof -
  have k: "CHR ''}'' \<notin> set (''global.'' @ name)" using assms(2) by simp
  show ?thesis
    using scan_placeholder [OF assms(1) k, of "lookup_placeholder config chainCtx" post]
    unfolding resolve_string_def lookup_global
    by (simp split: option.splits)
qed

lemma resolve_vars:
  assumes "\<not> has_opener pre" and "CHR ''}'' \<notin> set name"
  shows "resolve_string config chainCtx (pre @ ''${vars.'' @ name @ ''}'' @ post) =
           pre @ (case chainCtx of
                    None \<Rightarrow> ''${vars.'' @ name @ ''}''
                  | Some c \<Rightarrow>
                      (case map_of (vars c @ decryptSecrets c) name of
                         Some v \<Rightarrow> v | None \<Rightarrow> ''${vars.'' @ name @ ''}''))
               @ resolve_string config chainCtx post"
proof -
  have k: "CHR ''}'' \<notin> set (''vars.'' @ name)" using assms(2) by simp
  show ?thesis
    using scan_placeholder [OF assms(1) k, of "lookup_placeholder config chainCtx" post]
    unfolding resolve_string_def lookup_vars
    by (simp del: map_of_append split: option.splits)
qed

lemma processVariables_lookup:
  "processVariables config chainCtx configuration = Inr result \<Longrightarrow>
   map_of result key =
     map_option (\<lambda>value. case value of
                            AnyString strV \<Rightarrow> AnyString (resolve_string config chainCtx strV)
                          | _ \<Rightarrow> value)
       (map_of configuration key)"
  by (auto simp: processVariables_def map_of_map)

text \<open>
  C9. \<open>processVariables\<close> never fails and keeps the keys. A string value in which a
  placeholder \<open>${global.name}\<close> follows text without an opener \<open>${\<close> has the placeholder replaced
  by the process-wide property \<open>name\<close> when there is one, and left verbatim when the
  properties are absent or lack the name; a placeholder \<open>${vars.name}\<close> is replaced by the
  pipeline scope's value when a pipeline scope is supplied and declares it, and left verbatim
  when no pipeline scope is supplied; the text after the placeholder is resolved in the same
  way. A value that is not a string is passed through unchanged.
\<close>

theorem processVariables_resolution:
  assumes "\<not> has_opener pre" and "CHR ''}'' \<notin> set name"
  shows "\<exists>result. processVariables config chainCtx configuration = Inr result \<and>
           map fst result = map fst configuration \<and>
           (map_of configuration key = Some (AnyString (pre @ ''${global.'' @ name @ ''}'' @ post)) \<longrightarrow>
              map_of result key = Some (AnyString
                (pre @ (case Properties config of
                          None \<Rightarrow> ''${global.'' @ name @ ''}''
                        | Some props \<Rightarrow>
                            (case map_of props name of
                               Some v \<Rightarrow> v | None \<Rightarrow> ''${global.'' @ name @ ''}''))
                     @ resolve_string config chainCtx post))) \<and>
           (map_of configuration key = Some (AnyString (pre @ ''${vars.'' @ name @ ''}'' @ post)) \<longrightarrow>
              map_of result key = Some (AnyString
                (pre @ (case chainCtx of
                          None \<Rightarrow> ''${vars.'' @ name @ ''}''
                        | Some c \<Rightarrow>
                            (case map_of (vars c @ decryptSecrets c) name of
                               Some v \<Rightarrow> v | None \<Rightarrow> ''${vars.'' @ name @ ''}''))
                     @ resolve_string config chainCtx post))) \<and>
           (\<forall>c v. chainCtx = Some c \<and> map_of (vars c) name = Some v \<and>
                  map_of configuration key = Some (AnyString (pre @ ''${vars.'' @ name @ ''}'' @ post)) \<longrightarrow>
              map_of result key = Some (AnyString (pre @ v @ resolve_string config chainCtx post))) \<and>
           (\<forall>value. map_of configuration key = Some value \<and> (\<forall>strV. value \<noteq> AnyString strV) \<longrightarrow>
              map_of result key = Some value)"
proof -
  obtain result where r: "processVariables config chainCtx configuration = Inr result"
    by (simp add: processVariables_def)
  have keys: "map fst result = map fst configuration"
    using r by (auto simp: processVariables_def split: prod.splits)
  note lk = processVariables_lookup [OF r, of key]
  have g: "map_of configuration key = Some (AnyString (pre @ ''${global.'' @ name @ ''}'' @ post)) \<longrightarrow>
              map_of result key = Some (AnyString
                (pre @ (case Properties config of
                          None \<Rightarrow> ''${global.'' @ name @ ''}''
                        | Some props \<Rightarrow>
                            (case map_of props name of
                               Some v \<Rightarrow> v | None \<Rightarrow> ''${global.'' @ name @ ''}''))
                     @ resolve_string config chainCtx post))"
    using lk resolve_global [OF assms, of config chainCtx post] by simp
  have v: "map_of configuration key = Some (AnyString (pre @ ''${vars.'' @ name @ ''}'' @ post)) \<longrightarrow>
              map_of result key = Some (AnyString
                (pre @ (case chainCtx of
                          None \<Rightarrow> ''${vars.'' @ name @ ''}''
                        | Some c \<Rightarrow>
                            (case map_of (vars c @ decryptSecrets c) name of
                               Some v \<Rightarrow> v | None \<Rightarrow> ''${vars.'' @ name @ ''}''))
                     @ resolve_string config chainCtx post))"
    using lk resolve_vars [OF assms, of config chainCtx post] by (simp del: map_of_append)
  have v': "\<forall>c v. chainCtx = Some c \<and> map_of (vars c) name = Some v \<and>
                  map_of configuration key = Some (AnyString (pre @ ''${vars.'' @ name @ ''}'' @ post)) \<longrightarrow>
              map_of result key = Some (AnyString (pre @ v @ resolve_string config chainCtx post))"
    using v by (auto simp: map_add_Some_iff)
  have n: "\<forall>value. map_of configuration key = Some value \<and> (\<forall>strV. value \<noteq> AnyString strV) \<longrightarrow>
              map_of result key = Some value"
    using lk by (auto split: any.splits)
  from r keys g v v' n show ?thesis by blast
qed

theorem processVariables_resolution_witness:
  "processVariables test_Config None [(''name'', AnyString ''${global.name}'')]
     = Inr [(''name'', AnyString ''${global.name}'')] \<and>
   processVariables test_Config_lala None [(''name'', AnyString ''${global.name}''), (''age'', AnyInt 18)]
     = Inr [(''name'', AnyString ''lala''), (''age'', AnyInt 18)] \<and>
   processVariables test_Config_lala (Some test_chainCtx)
       [(''name'', AnyString ''${global.name}''), (''ip'', AnyString ''${vars.ip}'')]
     = Inr [(''name'', AnyString ''lala''), (''ip'', AnyString ''127.0.0.1'')] \<and>
   processVariables test_Config_lala None [(''ip'', AnyString ''${vars.ip}'')]
     = Inr [(''ip'', AnyString ''${vars.ip}'')] \<and>
   \<not> has_opener [] \<and> CHR ''}'' \<notin> set ''name''"
  using processVariables_resolution [of "[]" "''name''" test_Config_lala "Some test_chainCtx"
          "[(''name'', AnyString ''${global.name}''), (''ip'', AnyString ''${vars.ip}'')]" "''name''" "[]"]
  by (simp add: processVariables_def resolve_string_def lookup_placeholder_def test_Config_def
      test_Config_lala_def test_chainCtx_def)

end
